theory Spec2Isabelle
  imports Complex_Main
begin

section \<open>Python values and built-in operations used by the rules engine\<close>

text \<open>
  The engine of \<^verbatim>\<open>rules_engine.py\<close> works on dynamically typed data: the context,
  the rule documents and the action descriptors are dictionaries of YAML/JSON values.
  The embedding keeps that shape. A dictionary is an association list in insertion
  order (the \<^verbatim>\<open>LOG\<close> action iterates \<^verbatim>\<open>ctx.items()\<close> in that order), strings are
  byte strings (ASCII text; the two non-ASCII characters of the log lines are written
  as their UTF-8 bytes), and every Python exception the code can raise is a value of
  \<open>py_error\<close> on the left of a sum.
\<close>

datatype py_error = TypeError | ValueError | AttributeError | KeyError | OverflowError
  | FileNotFoundError | YAMLError | RecursionError

text \<open>
  A Python float is an IEEE double: a rational number or one of the special values.
  Comparisons of floats (and of floats with integers) are exact in Python and are
  defined below. Operations that round (conversion of literals and of large integers,
  arithmetic, \<^verbatim>\<open>round(x, 4)\<close>, \<^verbatim>\<open>repr\<close>) are not fixed here: they are the fields of a
  record \<open>pyops\<close> that every function of the engine takes as its first argument, and
  every theorem below holds for all of them.
\<close>

datatype pyfloat = Fin rat | NegZero | PosInf | NegInf | NaN

datatype pyval = VNone | VBool bool | VInt int | VFloat pyfloat | VStr string
  | VList "pyval list" | VDict "(pyval \<times> pyval) list"

type_synonym pydict = "(pyval \<times> pyval) list"

record pyops =
  f_of_int :: "int \<Rightarrow> pyfloat"
  f_of_lit :: "string \<Rightarrow> pyfloat"
  f_mul :: "pyfloat \<Rightarrow> pyfloat \<Rightarrow> pyfloat"
  f_add :: "pyfloat \<Rightarrow> pyfloat \<Rightarrow> pyfloat"
  f_sub :: "pyfloat \<Rightarrow> pyfloat \<Rightarrow> pyfloat"
  f_div :: "pyfloat \<Rightarrow> pyfloat \<Rightarrow> pyfloat"
  f_round4 :: "pyfloat \<Rightarrow> pyfloat"
  f_repr :: "pyfloat \<Rightarrow> string"
  s_repr :: "string \<Rightarrow> string"

subsection \<open>Strings\<close>

text \<open>\<^verbatim>\<open>str.strip()\<close>: the ASCII characters for which \<^verbatim>\<open>str.isspace\<close> holds.\<close>

definition is_space :: "char \<Rightarrow> bool" where
  "is_space c = (of_char c \<in> {9, 10, 11, 12, 13, 28, 29, 30, 31, 32 :: nat})"

definition strip :: "string \<Rightarrow> string" where
  "strip s = rev (dropWhile is_space (rev (dropWhile is_space s)))"

definition startswith :: "string \<Rightarrow> string \<Rightarrow> bool" where
  "startswith s p = (take (length p) s = p)"

definition endswith :: "string \<Rightarrow> string \<Rightarrow> bool" where
  "endswith s p = (length p \<le> length s \<and> drop (length s - length p) s = p)"

text \<open>\<^verbatim>\<open>s.find(p)\<close>: the least index at which \<open>p\<close> occurs, \<open>None\<close> for Python's \<open>-1\<close>.\<close>

fun str_find :: "string \<Rightarrow> string \<Rightarrow> nat option" where
  "str_find [] p = (if p = [] then Some 0 else None)"
| "str_find (c # s) p =
     (if take (length p) (c # s) = p then Some 0
      else map_option Suc (str_find s p))"

text \<open>\<^verbatim>\<open>token.split(".")\<close>: never empty; \<^verbatim>\<open>"".split(".")\<close> is \<^verbatim>\<open>[""]\<close>.\<close>

fun split_dot_acc :: "string \<Rightarrow> string \<Rightarrow> string list" where
  "split_dot_acc cur [] = [rev cur]"
| "split_dot_acc cur (c # s) =
     (if c = CHR ''.'' then rev cur # split_dot_acc [] s else split_dot_acc (c # cur) s)"

definition split_dot :: "string \<Rightarrow> string list" where
  "split_dot s = split_dot_acc [] s"

definition lower_char :: "char \<Rightarrow> char" where
  "lower_char c =
     (let n = (of_char c :: nat) in if 65 \<le> n \<and> n \<le> 90 then char_of (n + 32) else c)"

definition lower :: "string \<Rightarrow> string" where
  "lower s = map lower_char s"

text \<open>
  \<^verbatim>\<open>s.replace(old, new)\<close> for a non-empty \<open>old\<close>: every occurrence, left to right,
  without overlap; the text put in is not scanned again.
\<close>

function str_replace :: "string \<Rightarrow> string \<Rightarrow> string \<Rightarrow> string" where
  "str_replace [] old new = []"
| "str_replace (c # s) old new =
     (if old \<noteq> [] \<and> take (length old) (c # s) = old
      then new @ str_replace (drop (length old) (c # s)) old new
      else c # str_replace s old new)"
  by pat_completeness auto
termination
  by (relation "measure (\<lambda>(s, old, new). length s)") auto

subsection \<open>Numbers read from text\<close>

definition is_digit :: "char \<Rightarrow> bool" where
  "is_digit c = (48 \<le> (of_char c :: nat) \<and> (of_char c :: nat) \<le> 57)"

text \<open>Digits with single underscores between them, as \<^verbatim>\<open>int()\<close> and \<^verbatim>\<open>float()\<close> accept.\<close>

fun digitpart :: "string \<Rightarrow> bool" where
  "digitpart [] = False"
| "digitpart [c] = is_digit c"
| "digitpart (c # d # s) =
     (is_digit c \<and> (if d = CHR ''_'' then digitpart s else digitpart (d # s)))"

definition unsign :: "string \<Rightarrow> string" where
  "unsign s = (case s of [] \<Rightarrow> [] | c # r \<Rightarrow> if c = CHR ''+'' \<or> c = CHR ''-'' then r else s)"

definition int_syntax :: "string \<Rightarrow> bool" where
  "int_syntax s = digitpart (unsign s)"

definition digits_value :: "string \<Rightarrow> int" where
  "digits_value s = foldl (\<lambda>a c. 10 * a + (int (of_char c) - 48)) 0 (filter is_digit s)"

text \<open>\<^verbatim>\<open>int(token)\<close> on a string: base ten, \<^verbatim>\<open>ValueError\<close> on anything else.\<close>

definition int_of_str :: "string \<Rightarrow> py_error + int" where
  "int_of_str s =
     (let t = strip s in
      if int_syntax t
      then Inr (if startswith t ''-'' then - digits_value t else digits_value t)
      else Inl ValueError)"

definition mantissa_syntax :: "string \<Rightarrow> bool" where
  "mantissa_syntax m =
     (let a = takeWhile (\<lambda>c. c \<noteq> CHR ''.'') m; b = dropWhile (\<lambda>c. c \<noteq> CHR ''.'') m in
      case b of
        [] \<Rightarrow> digitpart a
      | _ # f \<Rightarrow> (a = [] \<or> digitpart a) \<and> (f = [] \<or> digitpart f) \<and> \<not> (a = [] \<and> f = []))"

definition decimal_syntax :: "string \<Rightarrow> bool" where
  "decimal_syntax u =
     (let m = takeWhile (\<lambda>c. c \<noteq> CHR ''e'' \<and> c \<noteq> CHR ''E'') u;
          x = dropWhile (\<lambda>c. c \<noteq> CHR ''e'' \<and> c \<noteq> CHR ''E'') u in
      mantissa_syntax m \<and> (case x of [] \<Rightarrow> True | _ # e \<Rightarrow> digitpart (unsign e)))"

text \<open>
  The strings \<^verbatim>\<open>float()\<close> accepts: an optional sign, then \<^verbatim>\<open>inf\<close>, \<^verbatim>\<open>infinity\<close> or
  \<^verbatim>\<open>nan\<close> in any case, or a decimal number with an optional exponent.
\<close>

definition float_syntax :: "string \<Rightarrow> bool" where
  "float_syntax s =
     (let u = unsign s in
      lower u \<in> {''inf'', ''infinity'', ''nan''} \<or> decimal_syntax u)"

definition float_of_str :: "pyops \<Rightarrow> string \<Rightarrow> py_error + pyfloat" where
  "float_of_str B s =
     (let t = strip s in if float_syntax t then Inr (f_of_lit B t) else Inl ValueError)"

subsection \<open>Comparison, equality and truth of values\<close>

text \<open>
  \<^verbatim>\<open>bool\<close> is a subclass of \<^verbatim>\<open>int\<close>: booleans, integers and floats compare with each
  other by numeric value, exactly.
\<close>

datatype num = NumI int | NumF pyfloat

fun as_num :: "pyval \<Rightarrow> num option" where
  "as_num (VBool b) = Some (NumI (if b then 1 else 0))"
| "as_num (VInt n) = Some (NumI n)"
| "as_num (VFloat x) = Some (NumF x)"
| "as_num _ = None"

fun num_float :: "num \<Rightarrow> pyfloat" where
  "num_float (NumI n) = Fin (of_int n)"
| "num_float (NumF x) = x"

fun f_rank :: "pyfloat \<Rightarrow> int \<times> rat" where
  "f_rank (Fin q) = (0, q)"
| "f_rank NegZero = (0, 0)"
| "f_rank PosInf = (1, 0)"
| "f_rank NegInf = (- 1, 0)"
| "f_rank NaN = (0, 0)"

definition f_eq :: "pyfloat \<Rightarrow> pyfloat \<Rightarrow> bool" where
  "f_eq a b = (a \<noteq> NaN \<and> b \<noteq> NaN \<and> f_rank a = f_rank b)"

definition f_lt :: "pyfloat \<Rightarrow> pyfloat \<Rightarrow> bool" where
  "f_lt a b = (a \<noteq> NaN \<and> b \<noteq> NaN \<and>
     (fst (f_rank a) < fst (f_rank b) \<or>
      fst (f_rank a) = fst (f_rank b) \<and> snd (f_rank a) < snd (f_rank b)))"

datatype ordop = OGt | OLt | OGe | OLe

fun f_ord :: "ordop \<Rightarrow> pyfloat \<Rightarrow> pyfloat \<Rightarrow> bool" where
  "f_ord OLt a b = f_lt a b"
| "f_ord OGt a b = f_lt b a"
| "f_ord OLe a b = (f_lt a b \<or> f_eq a b)"
| "f_ord OGe a b = (f_lt b a \<or> f_eq a b)"

fun str_lt :: "string \<Rightarrow> string \<Rightarrow> bool" where
  "str_lt [] [] = False"
| "str_lt [] (d # t) = True"
| "str_lt (c # s) [] = False"
| "str_lt (c # s) (d # t) =
     ((of_char c :: nat) < of_char d \<or> (c = d \<and> str_lt s t))"

fun str_ord :: "ordop \<Rightarrow> string \<Rightarrow> string \<Rightarrow> bool" where
  "str_ord OLt a b = str_lt a b"
| "str_ord OGt a b = str_lt b a"
| "str_ord OLe a b = (str_lt a b \<or> a = b)"
| "str_ord OGe a b = (str_lt b a \<or> a = b)"

fun len_ord :: "ordop \<Rightarrow> nat \<Rightarrow> nat \<Rightarrow> bool" where
  "len_ord OLt m n = (m < n)"
| "len_ord OGt m n = (n < m)"
| "len_ord OLe m n = (m \<le> n)"
| "len_ord OGe m n = (n \<le> m)"

text \<open>
  Equality of values that are not containers; it is also the equality of dictionary
  keys (\<^verbatim>\<open>1\<close>, \<^verbatim>\<open>1.0\<close> and \<^verbatim>\<open>True\<close> are one key). Object identity is not modelled, so
  a NaN is never equal to anything, itself included.
\<close>

fun scalar_eq :: "pyval \<Rightarrow> pyval \<Rightarrow> bool" where
  "scalar_eq VNone VNone = True"
| "scalar_eq (VStr a) (VStr b) = (a = b)"
| "scalar_eq a b =
     (case (as_num a, as_num b) of
        (Some x, Some y) \<Rightarrow> f_eq (num_float x) (num_float y)
      | _ \<Rightarrow> False)"

fun hashable :: "pyval \<Rightarrow> bool" where
  "hashable (VList _) = False"
| "hashable (VDict _) = False"
| "hashable _ = True"

fun dict_find :: "pydict \<Rightarrow> pyval \<Rightarrow> pyval option" where
  "dict_find [] k = None"
| "dict_find ((k', v) # d) k = (if scalar_eq k' k then Some v else dict_find d k)"

text \<open>
  \<^verbatim>\<open>==\<close> never raises on these values: numbers by value, strings by content, lists
  element by element, dictionaries as sets of items, anything else unequal.
\<close>

fun py_eq :: "pyval \<Rightarrow> pyval \<Rightarrow> bool"
  and py_eq_list :: "pyval list \<Rightarrow> pyval list \<Rightarrow> bool"
  and py_eq_items :: "pydict \<Rightarrow> pydict \<Rightarrow> bool" where
  "py_eq (VList xs) (VList ys) = py_eq_list xs ys"
| "py_eq (VDict a) (VDict b) = (length a = length b \<and> py_eq_items a b)"
| "py_eq a b = scalar_eq a b"
| "py_eq_list [] [] = True"
| "py_eq_list (x # xs) (y # ys) = (py_eq x y \<and> py_eq_list xs ys)"
| "py_eq_list _ _ = False"
| "py_eq_items [] b = True"
| "py_eq_items ((k, v) # r) b =
     ((case dict_find b k of Some w \<Rightarrow> py_eq v w | None \<Rightarrow> False) \<and> py_eq_items r b)"

text \<open>
  The four ordering operators: numbers with numbers, strings with strings
  (lexicographic), lists with lists (the first unequal pair decides, else the lengths);
  every other pairing raises \<^verbatim>\<open>TypeError\<close>, \<^verbatim>\<open>None\<close> with \<^verbatim>\<open>None\<close> included.
\<close>

fun py_ord :: "ordop \<Rightarrow> pyval \<Rightarrow> pyval \<Rightarrow> py_error + bool"
  and py_ord_list :: "ordop \<Rightarrow> pyval list \<Rightarrow> pyval list \<Rightarrow> py_error + bool" where
  "py_ord op (VList xs) (VList ys) = py_ord_list op xs ys"
| "py_ord op (VStr a) (VStr b) = Inr (str_ord op a b)"
| "py_ord op a b =
     (case (as_num a, as_num b) of
        (Some x, Some y) \<Rightarrow> Inr (f_ord op (num_float x) (num_float y))
      | _ \<Rightarrow> Inl TypeError)"
| "py_ord_list op (x # xs) (y # ys) =
     (if py_eq x y then py_ord_list op xs ys else py_ord op x y)"
| "py_ord_list op xs ys = Inr (len_ord op (length xs) (length ys))"

text \<open>\<^verbatim>\<open>bool(v)\<close>.\<close>

fun py_bool :: "pyval \<Rightarrow> bool" where
  "py_bool VNone = False"
| "py_bool (VBool b) = b"
| "py_bool (VInt n) = (n \<noteq> 0)"
| "py_bool (VFloat x) = (\<not> f_eq x (Fin 0))"
| "py_bool (VStr s) = (s \<noteq> [])"
| "py_bool (VList xs) = (xs \<noteq> [])"
| "py_bool (VDict d) = (d \<noteq> [])"

section \<open>SafeEvaluator: the condition language\<close>

text \<open>The table \<^verbatim>\<open>SafeEvaluator.OPS\<close> (lines 27-34), applied to two operands.\<close>

definition OPS :: "string \<Rightarrow> pyval \<Rightarrow> pyval \<Rightarrow> py_error + bool" where
  "OPS op_str l r =
     (if op_str = ''>'' then py_ord OGt l r
      else if op_str = ''<'' then py_ord OLt l r
      else if op_str = ''>='' then py_ord OGe l r
      else if op_str = ''<='' then py_ord OLe l r
      else if op_str = ''=='' then Inr (py_eq l r)
      else if op_str = ''!='' then Inr (\<not> py_eq l r)
      else Inl KeyError)"

text \<open>
  \<^verbatim>\<open>_split_on_keyword\<close> (lines 110-134). The loop index \<open>i\<close> is the position of the
  remaining text in \<open>expr\<close>. An opening parenthesis and either quote character always
  take the first branch, so only a closing parenthesis ever lowers \<open>depth\<close>. The method
  is only called with the keywords \<^verbatim>\<open>" or "\<close> and \<^verbatim>\<open>" and "\<close>.
\<close>

function split_loop :: "string \<Rightarrow> string \<Rightarrow> nat \<Rightarrow> string \<Rightarrow> string list \<Rightarrow> string list" where
  "split_loop kw [] depth current parts = parts @ [current]"
| "split_loop kw (c # rest) depth current parts =
     (if c \<in> {CHR ''('', CHR 0x27, CHR 0x22}
      then split_loop kw rest (depth + 1) (current @ [c]) parts
      else if c \<in> {CHR '')'', CHR 0x27, CHR 0x22} \<and> depth > 0
      then split_loop kw rest (depth - 1) (current @ [c]) parts
      else if depth = 0 \<and> kw \<noteq> [] \<and> lower (take (length kw) (c # rest)) = kw
      then split_loop kw (drop (length kw) (c # rest)) depth [] (parts @ [current])
      else split_loop kw rest depth (current @ [c]) parts)"
  by pat_completeness auto
termination
  by (relation "measure (\<lambda>(kw, s, depth, current, parts). length s)") auto

definition split_on_keyword :: "string \<Rightarrow> string \<Rightarrow> string list" where
  "split_on_keyword expr keyword = split_loop keyword expr 0 [] []"

text \<open>
  \<^verbatim>\<open>_resolve_value\<close> (lines 81-108): literals, then \<^verbatim>\<open>int\<close>, then \<^verbatim>\<open>float\<close>, then a
  dotted path into the context, \<^verbatim>\<open>None\<close> where a segment is missing or the value
  reached is not a dictionary.
\<close>

definition lookup_path :: "pydict \<Rightarrow> string list \<Rightarrow> pyval" where
  "lookup_path ctx parts =
     foldl (\<lambda>val p. case val of
                      VDict d \<Rightarrow> (case dict_find d (VStr p) of Some v \<Rightarrow> v | None \<Rightarrow> VNone)
                    | _ \<Rightarrow> VNone)
           (VDict ctx) parts"

definition resolve_value :: "pyops \<Rightarrow> pydict \<Rightarrow> string \<Rightarrow> pyval" where
  "resolve_value B ctx token0 =
     (let token = strip token0 in
      if token = ''true'' then VBool True
      else if token = ''false'' then VBool False
      else if token = ''null'' then VNone
      else if (startswith token [CHR 0x27] \<and> endswith token [CHR 0x27]) \<or>
              (startswith token [CHR 0x22] \<and> endswith token [CHR 0x22])
      then VStr (butlast (tl token))
      else case int_of_str token of
             Inr n \<Rightarrow> VInt n
           | Inl _ \<Rightarrow>
              (case float_of_str B token of
                 Inr x \<Rightarrow> VFloat x
               | Inl _ \<Rightarrow> lookup_path ctx (split_dot token)))"

text \<open>
  The operator loop of \<^verbatim>\<open>_parse_comparison\<close> (lines 65-79): the first operator of the
  tuple that occurs anywhere in the text splits it; a \<^verbatim>\<open>TypeError\<close> of the comparison
  is caught and gives \<^verbatim>\<open>False\<close>; with no operator the operand's truth value is returned.
\<close>

definition op_order :: "string list" where
  "op_order = [''>='', ''<='', ''!='', ''=='', ''>'', ''<'']"

text \<open>The \<^verbatim>\<open>try\<close>/\<^verbatim>\<open>except TypeError\<close> around the comparison (lines 73-76).\<close>

definition try_compare :: "string \<Rightarrow> pyval \<Rightarrow> pyval \<Rightarrow> py_error + bool" where
  "try_compare op_str left right =
     (case OPS op_str left right of
        Inl TypeError \<Rightarrow> Inr False
      | Inl e \<Rightarrow> Inl e
      | Inr b \<Rightarrow> Inr b)"

fun compare_loop :: "pyops \<Rightarrow> pydict \<Rightarrow> string \<Rightarrow> string list \<Rightarrow> py_error + bool" where
  "compare_loop B ctx expr [] = Inr (py_bool (resolve_value B ctx expr))"
| "compare_loop B ctx expr (op_str # ops) =
     (case str_find expr op_str of
        None \<Rightarrow> compare_loop B ctx expr ops
      | Some idx \<Rightarrow>
          (let left_str = strip (take idx expr);
               right_str = strip (drop (idx + length op_str) expr);
               left = resolve_value B ctx left_str;
               right = resolve_value B ctx right_str
           in try_compare op_str left right))"

lemma split_loop_len:
  "p \<in> set (split_loop kw s depth cur parts) \<Longrightarrow>
   p \<in> set parts \<or> length p \<le> length cur + length s"
proof (induction kw s depth cur parts rule: split_loop.induct)
  case (1 kw depth current parts)
  then show ?case by auto
next
  case (2 kw c rest depth current parts)
  show ?case
  proof (cases "c \<in> {CHR ''('', CHR 0x27, CHR 0x22}")
    case True
    with 2 show ?thesis by auto
  next
    case F1: False
    show ?thesis
    proof (cases "c \<in> {CHR '')'', CHR 0x27, CHR 0x22} \<and> depth > 0")
      case True
      with F1 2 show ?thesis by auto
    next
      case F2: False
      show ?thesis
      proof (cases "depth = 0 \<and> kw \<noteq> [] \<and> lower (take (length kw) (c # rest)) = kw")
        case True
        with F1 F2 2(3)[OF F1 F2 True] 2(5) show ?thesis
          by auto
      next
        case False
        with F1 F2 2(4)[OF F1 F2 False] 2(5) show ?thesis
          by auto
      qed
    qed
  qed
qed

lemma split_on_keyword_len:
  "p \<in> set (split_on_keyword expr kw) \<Longrightarrow> length p \<le> length expr"
  using split_loop_len[of p kw expr 0 "[]" "[]"] by (simp add: split_on_keyword_def)

lemma strip_len: "length (strip s) \<le> length s"
  unfolding strip_def
  by (metis length_rev length_dropWhile_le order_trans)

fun maxlen :: "string list \<Rightarrow> nat" where
  "maxlen [] = 0"
| "maxlen (p # ps) = max (length p) (maxlen ps)"

lemma maxlen_le: "(\<And>p. p \<in> set ps \<Longrightarrow> length p \<le> n) \<Longrightarrow> maxlen ps \<le> n"
  by (induction ps) auto

text \<open>
  \<^verbatim>\<open>SafeEvaluator.evaluate\<close> and the methods \<^verbatim>\<open>_parse_or\<close>, \<^verbatim>\<open>_parse_and\<close>,
  \<^verbatim>\<open>_parse_not\<close>, \<^verbatim>\<open>_parse_comparison\<close> (lines 39-79), on a condition that is a
  string. \<open>any_and\<close> and \<open>all_not\<close> are the generator expressions under \<^verbatim>\<open>any\<close> and
  \<^verbatim>\<open>all\<close>, which stop at the first deciding operand.
\<close>

function (sequential) SafeEvaluator_evaluate :: "pyops \<Rightarrow> pydict \<Rightarrow> string \<Rightarrow> py_error + bool"
  and parse_or :: "pyops \<Rightarrow> pydict \<Rightarrow> string \<Rightarrow> py_error + bool"
  and any_and :: "pyops \<Rightarrow> pydict \<Rightarrow> string list \<Rightarrow> py_error + bool"
  and parse_and :: "pyops \<Rightarrow> pydict \<Rightarrow> string \<Rightarrow> py_error + bool"
  and all_not :: "pyops \<Rightarrow> pydict \<Rightarrow> string list \<Rightarrow> py_error + bool"
  and parse_not :: "pyops \<Rightarrow> pydict \<Rightarrow> string \<Rightarrow> py_error + bool"
  and parse_comparison :: "pyops \<Rightarrow> pydict \<Rightarrow> string \<Rightarrow> py_error + bool" where
  "SafeEvaluator_evaluate B ctx expression = parse_or B ctx (strip expression)"
| "parse_or B ctx expr =
     (let parts = split_on_keyword expr '' or '' in
      if length parts > 1 then any_and B ctx parts else parse_and B ctx expr)"
| "any_and B ctx [] = Inr False"
| "any_and B ctx (p # ps) =
     (case parse_and B ctx (strip p) of
        Inl e \<Rightarrow> Inl e
      | Inr b \<Rightarrow> if b then Inr True else any_and B ctx ps)"
| "parse_and B ctx expr =
     (let parts = split_on_keyword expr '' and '' in
      if length parts > 1 then all_not B ctx parts else parse_not B ctx expr)"
| "all_not B ctx [] = Inr True"
| "all_not B ctx (p # ps) =
     (case parse_not B ctx (strip p) of
        Inl e \<Rightarrow> Inl e
      | Inr b \<Rightarrow> if b then all_not B ctx ps else Inr False)"
| "parse_not B ctx expr =
     (if startswith expr ''not ''
      then (case parse_comparison B ctx (strip (drop 4 expr)) of
              Inl e \<Rightarrow> Inl e | Inr b \<Rightarrow> Inr (\<not> b))
      else parse_comparison B ctx expr)"
| "parse_comparison B ctx expr =
     (if startswith expr ''('' \<and> endswith expr '')''
      then SafeEvaluator_evaluate B ctx (butlast (tl expr))
      else compare_loop B ctx expr op_order)"
  by pat_completeness auto
termination
proof (relation "measures
    [case_sum (case_sum (\<lambda>(B, ctx, e). length e)
                 (case_sum (\<lambda>(B, ctx, e). length e) (\<lambda>(B, ctx, ps). maxlen ps)))
       (case_sum (case_sum (\<lambda>(B, ctx, e). length e) (\<lambda>(B, ctx, ps). maxlen ps))
                 (case_sum (\<lambda>(B, ctx, e). length e) (\<lambda>(B, ctx, e). length e))),
     case_sum (case_sum (\<lambda>_. 6) (case_sum (\<lambda>_. 5) (\<lambda>_. 4)))
       (case_sum (case_sum (\<lambda>_. 3) (\<lambda>_. 2)) (case_sum (\<lambda>_. 1) (\<lambda>_. 0))),
     case_sum (case_sum (\<lambda>_. 0) (case_sum (\<lambda>_. 0) (\<lambda>(B, ctx, ps). length ps)))
       (case_sum (case_sum (\<lambda>_. 0) (\<lambda>(B, ctx, ps). length ps))
                 (case_sum (\<lambda>_. 0) (\<lambda>_. 0)))]", goal_cases)
  case 1 show ?case by simp
next
  case (2 B ctx expression) show ?case using strip_len[of expression] by auto
next
  case (3 B ctx expr x) then show ?case
    using maxlen_le[of "split_on_keyword expr '' or ''" "length expr"] split_on_keyword_len
    by auto
next
  case (4 B ctx expr x) then show ?case by auto
next
  case (5 B ctx p ps) show ?case using strip_len[of p] by auto
next
  case (6 B ctx p ps) then show ?case by auto
next
  case (7 B ctx expr x) then show ?case
    using maxlen_le[of "split_on_keyword expr '' and ''" "length expr"] split_on_keyword_len
    by auto
next
  case (8 B ctx expr x) then show ?case by auto
next
  case (9 B ctx p ps) show ?case using strip_len[of p] by auto
next
  case (10 B ctx p ps) then show ?case by auto
next
  case (11 B ctx expr) show ?case using strip_len[of "drop 4 expr"] by auto
next
  case (12 B ctx expr) then show ?case by auto
next
  case (13 B ctx expr) then show ?case by (cases expr) (auto simp: startswith_def)
qed

section \<open>RuleExecutor: the action interpreter\<close>

subsection \<open>Conversions and rendering\<close>

function digits_of_nat :: "nat \<Rightarrow> string" where
  "digits_of_nat n =
     (if n < 10 then [char_of (48 + n)]
      else digits_of_nat (n div 10) @ [char_of (48 + n mod 10)])"
  by pat_completeness auto
termination
  by (relation "measure id") auto

declare digits_of_nat.simps [simp del]

definition str_of_int :: "int \<Rightarrow> string" where
  "str_of_int i = (if i < 0 then ''-'' @ digits_of_nat (nat (- i)) else digits_of_nat (nat i))"

text \<open>
  \<^verbatim>\<open>repr(v)\<close> and \<^verbatim>\<open>str(v)\<close>; an f-string field \<^verbatim>\<open>{v}\<close> is \<^verbatim>\<open>str(v)\<close>. The text of a
  float and the quoting of a string are fields of \<open>pyops\<close>.
\<close>

function (sequential) py_repr :: "pyops \<Rightarrow> pyval \<Rightarrow> string"
  and repr_list :: "pyops \<Rightarrow> pyval list \<Rightarrow> string"
  and repr_items :: "pyops \<Rightarrow> pydict \<Rightarrow> string" where
  "py_repr B VNone = ''None''"
| "py_repr B (VBool b) = (if b then ''True'' else ''False'')"
| "py_repr B (VInt n) = str_of_int n"
| "py_repr B (VFloat x) = f_repr B x"
| "py_repr B (VStr s) = s_repr B s"
| "py_repr B (VList xs) = ''['' @ repr_list B xs @ '']''"
| "py_repr B (VDict d) = ''{'' @ repr_items B d @ ''}''"
| "repr_list B [] = []"
| "repr_list B (x # xs) =
     py_repr B x @ (if xs = [] then [] else '', '' @ repr_list B xs)"
| "repr_items B [] = []"
| "repr_items B ((k, v) # d) =
     py_repr B k @ '': '' @ py_repr B v @ (if d = [] then [] else '', '' @ repr_items B d)"
  by pat_completeness auto
termination
  by (relation "measure (case_sum (\<lambda>(B, v). size v)
        (case_sum (\<lambda>(B, xs). size_list size xs)
                  (\<lambda>(B, d). size_list (size_prod size size) d)))") auto

definition py_str :: "pyops \<Rightarrow> pyval \<Rightarrow> string" where
  "py_str B v = (case v of VStr s \<Rightarrow> s | _ \<Rightarrow> py_repr B v)"

text \<open>
  \<^verbatim>\<open>float(n)\<close> for an integer: exact up to \<open>2^53\<close>, rounded beyond, and
  \<^verbatim>\<open>OverflowError\<close> from \<open>2^1024 - 2^970\<close> on.
\<close>

definition float_of_int :: "pyops \<Rightarrow> int \<Rightarrow> py_error + pyfloat" where
  "float_of_int B n =
     (if \<bar>n\<bar> \<le> 2 ^ 53 then Inr (Fin (of_int n))
      else if \<bar>n\<bar> < 2 ^ 1024 - 2 ^ 970 then Inr (f_of_int B n)
      else Inl OverflowError)"

text \<open>\<^verbatim>\<open>float(v)\<close>: \<^verbatim>\<open>TypeError\<close> on \<^verbatim>\<open>None\<close>, lists and dictionaries.\<close>

fun py_float :: "pyops \<Rightarrow> pyval \<Rightarrow> py_error + pyfloat" where
  "py_float B (VFloat x) = Inr x"
| "py_float B (VInt n) = float_of_int B n"
| "py_float B (VBool b) = Inr (Fin (if b then 1 else 0))"
| "py_float B (VStr s) = float_of_str B s"
| "py_float B _ = Inl TypeError"

subsection \<open>Dictionary operations\<close>

text \<open>
  \<^verbatim>\<open>d[k] = v\<close> keeps the position of a key already present and appends a new one;
  a list or dictionary as key raises \<^verbatim>\<open>TypeError\<close> (unhashable).
\<close>

fun dict_update :: "pydict \<Rightarrow> pyval \<Rightarrow> pyval \<Rightarrow> pydict" where
  "dict_update [] k v = [(k, v)]"
| "dict_update ((k', v') # d) k v =
     (if scalar_eq k' k then (k', v) # d else (k', v') # dict_update d k v)"

definition dict_set :: "pydict \<Rightarrow> pyval \<Rightarrow> pyval \<Rightarrow> py_error + pydict" where
  "dict_set d k v = (if hashable k then Inr (dict_update d k v) else Inl TypeError)"

definition dict_get :: "pydict \<Rightarrow> pyval \<Rightarrow> pyval \<Rightarrow> py_error + pyval" where
  "dict_get d k dflt =
     (if hashable k then Inr (case dict_find d k of Some v \<Rightarrow> v | None \<Rightarrow> dflt)
      else Inl TypeError)"

text \<open>
  The same operations on a value that need not be a dictionary, with a string key:
  \<^verbatim>\<open>key in obj\<close>, \<^verbatim>\<open>obj[key]\<close>, \<^verbatim>\<open>obj.get(key, default)\<close>, and iteration.
\<close>

fun py_contains :: "pyval \<Rightarrow> string \<Rightarrow> py_error + bool" where
  "py_contains (VDict d) key = Inr (dict_find d (VStr key) \<noteq> None)"
| "py_contains (VStr s) key = Inr (str_find s key \<noteq> None)"
| "py_contains (VList xs) key = Inr (list_ex (\<lambda>x. py_eq x (VStr key)) xs)"
| "py_contains _ key = Inl TypeError"

fun py_getitem :: "pyval \<Rightarrow> string \<Rightarrow> py_error + pyval" where
  "py_getitem (VDict d) key =
     (case dict_find d (VStr key) of Some v \<Rightarrow> Inr v | None \<Rightarrow> Inl KeyError)"
| "py_getitem _ key = Inl TypeError"

fun py_get :: "pyval \<Rightarrow> string \<Rightarrow> pyval \<Rightarrow> py_error + pyval" where
  "py_get (VDict d) key dflt =
     Inr (case dict_find d (VStr key) of Some v \<Rightarrow> v | None \<Rightarrow> dflt)"
| "py_get _ key dflt = Inl AttributeError"

fun py_iter :: "pyval \<Rightarrow> py_error + pyval list" where
  "py_iter (VList xs) = Inr xs"
| "py_iter (VDict d) = Inr (map fst d)"
| "py_iter (VStr s) = Inr (map (\<lambda>c. VStr [c]) s)"
| "py_iter _ = Inl TypeError"

subsection \<open>The actions\<close>

text \<open>
  \<^verbatim>\<open>RuleExecutor._execute_action\<close> (lines 150-203). The context is passed in and the
  updated context is returned with the log line; an exception is \<open>Inl\<close>. No branch
  changes the context before it raises. \<open>if_in\<close> is the test \<^verbatim>\<open>if key in action\<close>.
\<close>

definition if_in :: "string \<Rightarrow> pyval \<Rightarrow> py_error + 'a \<Rightarrow> py_error + 'a \<Rightarrow> py_error + 'a" where
  "if_in key obj yes no =
     (case py_contains obj key of Inl e \<Rightarrow> Inl e | Inr b \<Rightarrow> if b then yes else no)"

definition log_tag :: "pyops \<Rightarrow> pyval \<Rightarrow> string" where
  "log_tag B rule_id = ''['' @ py_str B rule_id @ ''] ''"

definition times_sign :: string where
  "times_sign = [CHR 0xC3, CHR 0x97]"

definition arrow_sign :: string where
  "arrow_sign = [CHR 0xE2, CHR 0x86, CHR 0x92]"

text \<open>SET (lines 152-156).\<close>

definition action_set :: "pyops \<Rightarrow> pyval \<Rightarrow> pydict \<Rightarrow> pyval \<Rightarrow> py_error + pydict \<times> string option" where
  "action_set B action ctx rule_id =
     (case py_getitem action ''set'' of Inl e \<Rightarrow> Inl e | Inr field \<Rightarrow>
      case py_get action ''value'' VNone of Inl e \<Rightarrow> Inl e | Inr v \<Rightarrow>
      case dict_set ctx field v of Inl e \<Rightarrow> Inl e | Inr ctx' \<Rightarrow>
        Inr (ctx', Some (log_tag B rule_id @ ''SET '' @ py_str B field @ '' = '' @ py_repr B v)))"

text \<open>
  MULTIPLY, ADD and SUBTRACT (lines 159-177) are one block up to the key, the default
  of \<^verbatim>\<open>by\<close>, the operation and the text of the log line:
  \<^verbatim>\<open>ctx[field] = round(float(ctx.get(field, 0)) op float(by), 4)\<close>.
\<close>

definition action_arith ::
  "pyops \<Rightarrow> string \<Rightarrow> pyval \<Rightarrow> (pyfloat \<Rightarrow> pyfloat \<Rightarrow> pyfloat) \<Rightarrow> string \<Rightarrow> string \<Rightarrow>
   pyval \<Rightarrow> pydict \<Rightarrow> pyval \<Rightarrow> py_error + pydict \<times> string option" where
  "action_arith B key dflt fop name opsym action ctx rule_id =
     (case py_getitem action key of Inl e \<Rightarrow> Inl e | Inr field \<Rightarrow>
      case py_get action ''by'' dflt of Inl e \<Rightarrow> Inl e | Inr byv \<Rightarrow>
      case dict_get ctx field (VInt 0) of Inl e \<Rightarrow> Inl e | Inr cur \<Rightarrow>
      case py_float B cur of Inl e \<Rightarrow> Inl e | Inr x \<Rightarrow>
      case py_float B byv of Inl e \<Rightarrow> Inl e | Inr y \<Rightarrow>
      case dict_set ctx field (VFloat (f_round4 B (fop x y))) of Inl e \<Rightarrow> Inl e | Inr ctx' \<Rightarrow>
        Inr (ctx', Some (log_tag B rule_id @ name @ '' '' @ py_str B field @ '' '' @ opsym @ '' '' @
                         py_str B byv @ '' '' @ arrow_sign @ '' '' @
                         py_str B (VFloat (f_round4 B (fop x y))))))"

definition action_multiply :: "pyops \<Rightarrow> pyval \<Rightarrow> pydict \<Rightarrow> pyval \<Rightarrow> py_error + pydict \<times> string option" where
  "action_multiply B = action_arith B ''multiply'' (VInt 1) (f_mul B) ''MULTIPLY'' times_sign"

definition action_add :: "pyops \<Rightarrow> pyval \<Rightarrow> pydict \<Rightarrow> pyval \<Rightarrow> py_error + pydict \<times> string option" where
  "action_add B = action_arith B ''add'' (VInt 0) (f_add B) ''ADD'' ''+''"

definition action_subtract :: "pyops \<Rightarrow> pyval \<Rightarrow> pydict \<Rightarrow> pyval \<Rightarrow> py_error + pydict \<times> string option" where
  "action_subtract B = action_arith B ''subtract'' (VInt 0) (f_sub B) ''SUBTRACT'' ''-''"

text \<open>
  DIVIDE (lines 180-185): the assignment is guarded by \<^verbatim>\<open>float(divisor) != 0\<close>; the log
  line reads \<^verbatim>\<open>ctx.get(field)\<close> afterwards.
\<close>

definition action_divide :: "pyops \<Rightarrow> pyval \<Rightarrow> pydict \<Rightarrow> pyval \<Rightarrow> py_error + pydict \<times> string option" where
  "action_divide B action ctx rule_id =
     (case py_getitem action ''divide'' of Inl e \<Rightarrow> Inl e | Inr field \<Rightarrow>
      case py_get action ''by'' (VInt 1) of Inl e \<Rightarrow> Inl e | Inr divisor \<Rightarrow>
      case py_float B divisor of Inl e \<Rightarrow> Inl e | Inr dv \<Rightarrow>
      case (if \<not> f_eq dv (Fin 0)
            then (case dict_get ctx field (VInt 0) of Inl e \<Rightarrow> Inl e | Inr cur \<Rightarrow>
                  case py_float B cur of Inl e \<Rightarrow> Inl e | Inr x \<Rightarrow>
                    dict_set ctx field (VFloat (f_round4 B (f_div B x dv))))
            else Inr ctx) of Inl e \<Rightarrow> Inl e | Inr ctx' \<Rightarrow>
      case dict_get ctx' field VNone of Inl e \<Rightarrow> Inl e | Inr shown \<Rightarrow>
        Inr (ctx', Some (log_tag B rule_id @ ''DIVIDE '' @ py_str B field @ '' / '' @
                         py_str B divisor @ '' '' @ arrow_sign @ '' '' @ py_str B shown)))"

text \<open>APPEND (lines 188-194).\<close>

definition action_append :: "pyops \<Rightarrow> pyval \<Rightarrow> pydict \<Rightarrow> pyval \<Rightarrow> py_error + pydict \<times> string option" where
  "action_append B action ctx rule_id =
     (case py_getitem action ''append'' of Inl e \<Rightarrow> Inl e | Inr field \<Rightarrow>
      case py_get action ''value'' VNone of Inl e \<Rightarrow> Inl e | Inr v \<Rightarrow>
      case dict_get ctx field VNone of Inl e \<Rightarrow> Inl e | Inr cur \<Rightarrow>
      case dict_set ctx field (case cur of VList xs \<Rightarrow> VList (xs @ [v]) | _ \<Rightarrow> VList [v]) of
        Inl e \<Rightarrow> Inl e
      | Inr ctx' \<Rightarrow>
          Inr (ctx', Some (log_tag B rule_id @ ''APPEND '' @ py_repr B v @ '' '' @ arrow_sign @
                           '' '' @ py_str B field)))"

text \<open>
  LOG (lines 197-201): one \<^verbatim>\<open>replace\<close> per item of the context, in the order of the
  dictionary, each on the message the previous one left.
\<close>

fun log_loop :: "pyops \<Rightarrow> string \<Rightarrow> pydict \<Rightarrow> py_error + string" where
  "log_loop B message [] = Inr message"
| "log_loop B message ((key, val) # items) =
     (case key of
        VStr k \<Rightarrow> log_loop B (str_replace message (''{'' @ k @ ''}'') (py_str B val)) items
      | _ \<Rightarrow> Inl TypeError)"

definition action_log :: "pyops \<Rightarrow> pyval \<Rightarrow> pydict \<Rightarrow> pyval \<Rightarrow> py_error + pydict \<times> string option" where
  "action_log B action ctx rule_id =
     (case py_getitem action ''log'' of Inl e \<Rightarrow> Inl e | Inr m \<Rightarrow>
      case log_loop B (py_str B m) ctx of Inl e \<Rightarrow> Inl e | Inr message \<Rightarrow>
        Inr (ctx, Some (log_tag B rule_id @ ''LOG: '' @ message)))"

definition execute_action :: "pyops \<Rightarrow> pyval \<Rightarrow> pydict \<Rightarrow> pyval \<Rightarrow> py_error + pydict \<times> string option" where
  "execute_action B action ctx rule_id =
     if_in ''set'' action (action_set B action ctx rule_id)
    (if_in ''multiply'' action (action_multiply B action ctx rule_id)
    (if_in ''add'' action (action_add B action ctx rule_id)
    (if_in ''subtract'' action (action_subtract B action ctx rule_id)
    (if_in ''divide'' action (action_divide B action ctx rule_id)
    (if_in ''append'' action (action_append B action ctx rule_id)
    (if_in ''log'' action (action_log B action ctx rule_id)
    (Inr (ctx, None))))))))"

text \<open>
  \<^verbatim>\<open>RuleExecutor.execute\<close> (lines 142-148): the actions in order on one context; a log
  entry is kept when it is neither \<^verbatim>\<open>None\<close> nor empty. There is no handler: the first
  action that raises ends the loop and the exception leaves \<^verbatim>\<open>execute\<close>.
\<close>

fun execute_loop ::
  "pyops \<Rightarrow> pyval list \<Rightarrow> pydict \<Rightarrow> pyval \<Rightarrow> string list \<Rightarrow> py_error + pydict \<times> string list" where
  "execute_loop B [] ctx rule_id logs = Inr (ctx, logs)"
| "execute_loop B (action # actions) ctx rule_id logs =
     (case execute_action B action ctx rule_id of
        Inl e \<Rightarrow> Inl e
      | Inr (ctx', log_entry) \<Rightarrow>
          execute_loop B actions ctx' rule_id
            (case log_entry of
               Some l \<Rightarrow> if l \<noteq> [] then logs @ [l] else logs
             | None \<Rightarrow> logs))"

definition execute :: "pyops \<Rightarrow> pyval \<Rightarrow> pydict \<Rightarrow> pyval \<Rightarrow> py_error + pydict \<times> string list" where
  "execute B actions ctx rule_id =
     (case py_iter actions of
        Inl e \<Rightarrow> Inl e
      | Inr acts \<Rightarrow> execute_loop B acts ctx rule_id [])"

section \<open>RulesEngine: the ruleset store and the evaluation loop\<close>

subsection \<open>The store\<close>

text \<open>
  The engine object holds the rules directory and the cache (\<^verbatim>\<open>self._cache\<close>); the
  files of the directory are part of the state as well. \<^verbatim>\<open>yaml.safe_load\<close>, the clock
  (\<^verbatim>\<open>datetime.utcnow().isoformat()\<close>) and the modification time a write leaves are
  arguments. A write is taken to succeed: the directory exists and is writable.
\<close>

record rfile =
  content :: string
  mtime :: pyfloat

record engine =
  rules_dir :: string
  fs :: "string \<rightharpoonup> rfile"
  cache :: "string \<rightharpoonup> pydict"

type_synonym yaml_loader = "string \<Rightarrow> py_error + pyval"

text \<open>\<^verbatim>\<open>os.path.join(rules_dir, f"{name}.yaml")\<close> on a POSIX system.\<close>

definition ruleset_path :: "engine \<Rightarrow> string \<Rightarrow> string" where
  "ruleset_path eng name =
     (let b = name @ ''.yaml''; a = rules_dir eng in
      if startswith b ''/'' then b
      else if a = [] \<or> endswith a ''/'' then a @ b
      else a @ ''/'' @ b)"

text \<open>
  \<^verbatim>\<open>data["rules"].sort(key=lambda r: r.get("priority", 50))\<close> (line 239). The keys are
  computed first. \<^verbatim>\<open>list.sort\<close> is stable and compares keys with \<^verbatim>\<open><\<close> only; it is
  written here as the insertion sort that Python uses on short lists, so a comparison
  that raises ends the sort. On keys that \<^verbatim>\<open><\<close> orders totally every stable sort
  returns the same list.
\<close>

fun sort_keys :: "pyval list \<Rightarrow> py_error + (pyval \<times> pyval) list" where
  "sort_keys [] = Inr []"
| "sort_keys (r # rs) =
     (case py_get r ''priority'' (VInt 50) of
        Inl e \<Rightarrow> Inl e
      | Inr k \<Rightarrow> (case sort_keys rs of Inl e \<Rightarrow> Inl e | Inr ks \<Rightarrow> Inr ((k, r) # ks)))"

fun insort_py :: "pyval \<times> pyval \<Rightarrow> (pyval \<times> pyval) list \<Rightarrow> py_error + (pyval \<times> pyval) list" where
  "insort_py x [] = Inr [x]"
| "insort_py x (y # ys) =
     (case py_ord OLt (fst y) (fst x) of
        Inl e \<Rightarrow> Inl e
      | Inr b \<Rightarrow>
          if b then (case insort_py x ys of Inl e \<Rightarrow> Inl e | Inr zs \<Rightarrow> Inr (y # zs))
          else Inr (x # y # ys))"

fun sort_py :: "(pyval \<times> pyval) list \<Rightarrow> py_error + (pyval \<times> pyval) list" where
  "sort_py [] = Inr []"
| "sort_py (x # xs) = (case sort_py xs of Inl e \<Rightarrow> Inl e | Inr s \<Rightarrow> insort_py x s)"

definition sort_by_priority :: "pyval \<Rightarrow> py_error + pyval" where
  "sort_by_priority rules =
     (case rules of
        VList rs \<Rightarrow>
          (case sort_keys rs of Inl e \<Rightarrow> Inl e | Inr ks \<Rightarrow>
           case sort_py ks of Inl e \<Rightarrow> Inl e | Inr s \<Rightarrow> Inr (VList (map snd s)))
      | _ \<Rightarrow> Inl AttributeError)"

text \<open>
  \<^verbatim>\<open>load_ruleset\<close> (lines 219-243), in three parts: the test of the cache (lines
  226-228), the reading of the file with its checks, the sort and the two stamps (lines
  230-241), and the method itself. The result is paired with the engine after the call;
  the cache changes only when the file was read and accepted.
\<close>

definition cache_lookup :: "engine \<Rightarrow> string \<Rightarrow> rfile \<Rightarrow> bool \<Rightarrow> pydict option" where
  "cache_lookup eng name f force_reload =
     (if force_reload then None
      else (case cache eng name of
              None \<Rightarrow> None
            | Some cached \<Rightarrow>
                if cached \<noteq> [] \<and>
                   py_eq (case dict_find cached (VStr ''_mtime'') of
                            Some m \<Rightarrow> m | None \<Rightarrow> VNone) (VFloat (mtime f))
                then Some cached else None))"

definition read_document :: "yaml_loader \<Rightarrow> string \<Rightarrow> rfile \<Rightarrow> py_error + pydict" where
  "read_document yaml now f =
     (case yaml (content f) of Inl e \<Rightarrow> Inl e | Inr data \<Rightarrow>
      case py_contains data ''ruleset'' of Inl e \<Rightarrow> Inl e | Inr has_meta \<Rightarrow>
      if \<not> has_meta then Inl ValueError else
      case py_contains data ''rules'' of Inl e \<Rightarrow> Inl e | Inr has_rules \<Rightarrow>
      if \<not> has_rules then Inl ValueError else
      case py_getitem data ''rules'' of Inl e \<Rightarrow> Inl e | Inr rules \<Rightarrow>
      case sort_by_priority rules of Inl e \<Rightarrow> Inl e | Inr sorted_rules \<Rightarrow>
      case data of
        VDict d \<Rightarrow>
          Inr (dict_update
                 (dict_update (dict_update d (VStr ''rules'') sorted_rules)
                    (VStr ''_mtime'') (VFloat (mtime f)))
                 (VStr ''_loaded_at'') (VStr now))
      | _ \<Rightarrow> Inl TypeError)"

definition load_ruleset ::
  "yaml_loader \<Rightarrow> string \<Rightarrow> engine \<Rightarrow> string \<Rightarrow> bool \<Rightarrow> (py_error + pydict) \<times> engine" where
  "load_ruleset yaml now eng name force_reload =
     (case fs eng (ruleset_path eng name) of
        None \<Rightarrow> (Inl FileNotFoundError, eng)
      | Some f \<Rightarrow>
          (case cache_lookup eng name f force_reload of
             Some cached \<Rightarrow> (Inr cached, eng)
           | None \<Rightarrow>
               (case read_document yaml now f of
                  Inl e \<Rightarrow> (Inl e, eng)
                | Inr data' \<Rightarrow> (Inr data', eng\<lparr>cache := (cache eng)(name \<mapsto> data')\<rparr>))))"

text \<open>\<^verbatim>\<open>get_ruleset_yaml\<close> (lines 359-365).\<close>

definition get_ruleset_yaml :: "engine \<Rightarrow> string \<Rightarrow> py_error + string" where
  "get_ruleset_yaml eng name =
     (case fs eng (ruleset_path eng name) of
        None \<Rightarrow> Inl FileNotFoundError
      | Some f \<Rightarrow> Inr (content f))"

fun py_len :: "pyval \<Rightarrow> py_error + nat" where
  "py_len (VList xs) = Inr (length xs)"
| "py_len (VDict d) = Inr (length d)"
| "py_len (VStr s) = Inr (length s)"
| "py_len _ = Inl TypeError"

text \<open>
  \<^verbatim>\<open>save_ruleset_yaml\<close> (lines 367-384): the two membership tests, then the write and
  the eviction from the cache, then the result, whose \<^verbatim>\<open>len(parsed["rules"])\<close> is
  evaluated after the file is written. The result is the path and the rule count.
\<close>

definition save_ruleset_yaml ::
  "yaml_loader \<Rightarrow> pyfloat \<Rightarrow> engine \<Rightarrow> string \<Rightarrow> string \<Rightarrow> (py_error + string \<times> nat) \<times> engine" where
  "save_ruleset_yaml yaml write_time eng name new_text =
     (case yaml new_text of Inl e \<Rightarrow> (Inl e, eng) | Inr parsed \<Rightarrow>
      case py_contains parsed ''ruleset'' of Inl e \<Rightarrow> (Inl e, eng) | Inr has_meta \<Rightarrow>
      if \<not> has_meta then (Inl ValueError, eng) else
      case py_contains parsed ''rules'' of Inl e \<Rightarrow> (Inl e, eng) | Inr has_rules \<Rightarrow>
      if \<not> has_rules then (Inl ValueError, eng) else
      let path = ruleset_path eng name;
          eng' = eng\<lparr>fs := (fs eng)(path \<mapsto> \<lparr>content = new_text, mtime = write_time\<rparr>),
                     cache := (cache eng)(name := None)\<rparr>
      in case py_getitem parsed ''rules'' of Inl e \<Rightarrow> (Inl e, eng') | Inr rules \<Rightarrow>
         case py_len rules of Inl e \<Rightarrow> (Inl e, eng') | Inr n \<Rightarrow> (Inr (path, n), eng'))"

subsection \<open>The evaluation loop\<close>

text \<open>
  An entry of the execution log. The three shapes the code appends (lines 302-308,
  316-325, 331-338) differ in the keys they carry, so the optional ones are options.
  The \<^verbatim>\<open>error\<close> text \<^verbatim>\<open>str(ex)\<close> is kept as the exception itself.
\<close>

record log_entry =
  le_rule_id :: pyval
  le_name :: pyval
  le_priority :: "pyval option"
  le_description :: "pyval option"
  le_condition :: "pyval option"
  le_matched :: bool
  le_actions_executed :: "nat option"
  le_error :: "py_error option"
  le_logs :: "string list"

record loop_state =
  ls_context :: pydict
  ls_fired :: "pyval list"
  ls_skipped :: "pyval list"
  ls_log :: "log_entry list"

text \<open>
  \<^verbatim>\<open>SafeEvaluator(context).evaluate(condition)\<close> as the loop calls it (lines 299-300):
  the condition is whatever the rule holds, and \<^verbatim>\<open>expression.strip()\<close> raises
  \<^verbatim>\<open>AttributeError\<close> on anything but a string.
\<close>

definition evaluate_condition :: "pyops \<Rightarrow> pydict \<Rightarrow> pyval \<Rightarrow> py_error + bool" where
  "evaluate_condition B ctx condition =
     (case condition of
        VStr expression \<Rightarrow> SafeEvaluator_evaluate B ctx expression
      | _ \<Rightarrow> Inl AttributeError)"

text \<open>
  The body of \<^verbatim>\<open>for rule in rules\<close> (lines 292-338) on one rule. The handler around
  the condition catches every exception and goes on to the next rule; nothing handles
  an exception of the actions, which leaves \<^verbatim>\<open>evaluate\<close>. The step says whether the
  loop continues or was left by \<^verbatim>\<open>break\<close>.
\<close>

datatype 'a flow = Continue 'a | Break 'a

definition error_entry :: "pyval \<Rightarrow> pyval \<Rightarrow> py_error \<Rightarrow> log_entry" where
  "error_entry rule_id name ex =
     \<lparr>le_rule_id = rule_id, le_name = name, le_priority = None, le_description = None,
      le_condition = None, le_matched = False, le_actions_executed = None,
      le_error = Some ex, le_logs = []\<rparr>"

definition matched_entry ::
  "pyval \<Rightarrow> pyval \<Rightarrow> pyval \<Rightarrow> pyval \<Rightarrow> pyval \<Rightarrow> nat \<Rightarrow> string list \<Rightarrow> log_entry" where
  "matched_entry rule_id name priority description condition n action_logs =
     \<lparr>le_rule_id = rule_id, le_name = name, le_priority = Some priority,
      le_description = Some description, le_condition = Some condition, le_matched = True,
      le_actions_executed = Some n, le_error = None, le_logs = action_logs\<rparr>"

definition unmatched_entry :: "pyval \<Rightarrow> pyval \<Rightarrow> pyval \<Rightarrow> pyval \<Rightarrow> log_entry" where
  "unmatched_entry rule_id name priority condition =
     \<lparr>le_rule_id = rule_id, le_name = name, le_priority = Some priority,
      le_description = None, le_condition = Some condition, le_matched = False,
      le_actions_executed = None, le_error = None, le_logs = []\<rparr>"

definition on_match ::
  "pyops \<Rightarrow> pyval \<Rightarrow> pyval \<Rightarrow> pyval \<Rightarrow> pyval \<Rightarrow> pyval \<Rightarrow> loop_state \<Rightarrow>
   py_error + loop_state flow" where
  "on_match B priority_mode rule rule_id name condition st =
     (case py_get rule ''actions'' (VList []) of Inl e \<Rightarrow> Inl e | Inr actions \<Rightarrow>
      case execute B actions (ls_context st) rule_id of
        Inl e \<Rightarrow> Inl e
      | Inr (ctx', action_logs) \<Rightarrow>
      case py_get rule ''priority'' (VInt 50) of Inl e \<Rightarrow> Inl e | Inr priority \<Rightarrow>
      case py_get rule ''description'' (VStr []) of Inl e \<Rightarrow> Inl e | Inr description \<Rightarrow>
      case py_len actions of Inl e \<Rightarrow> Inl e | Inr n \<Rightarrow>
        (let st' = st\<lparr>ls_context := ctx',
                       ls_fired := ls_fired st @ [rule_id],
                       ls_log := ls_log st @
                         [matched_entry rule_id name priority description condition n
                            action_logs]\<rparr>
         in if py_eq priority_mode (VStr ''first_match'') then Inr (Break st')
            else Inr (Continue st')))"

definition rule_step :: "pyops \<Rightarrow> pyval \<Rightarrow> pyval \<Rightarrow> loop_state \<Rightarrow> py_error + loop_state flow" where
  "rule_step B priority_mode rule st =
     (case py_get rule ''id'' (VStr ''???'') of Inl e \<Rightarrow> Inl e | Inr rule_id \<Rightarrow>
      case py_get rule ''condition'' (VStr []) of Inl e \<Rightarrow> Inl e | Inr condition \<Rightarrow>
      case py_get rule ''name'' rule_id of Inl e \<Rightarrow> Inl e | Inr name \<Rightarrow>
      case evaluate_condition B (ls_context st) condition of
        Inl ex \<Rightarrow>
          Inr (Continue (st\<lparr>ls_log := ls_log st @ [error_entry rule_id name ex],
                            ls_skipped := ls_skipped st @ [rule_id]\<rparr>))
      | Inr matched \<Rightarrow>
          if matched then on_match B priority_mode rule rule_id name condition st
          else
            (case py_get rule ''priority'' (VInt 50) of Inl e \<Rightarrow> Inl e | Inr priority \<Rightarrow>
               Inr (Continue (st\<lparr>ls_skipped := ls_skipped st @ [rule_id],
                                 ls_log := ls_log st @
                                   [unmatched_entry rule_id name priority condition]\<rparr>))))"

fun rule_loop :: "pyops \<Rightarrow> pyval \<Rightarrow> pyval list \<Rightarrow> loop_state \<Rightarrow> py_error + loop_state" where
  "rule_loop B priority_mode [] st = Inr st"
| "rule_loop B priority_mode (rule # rules) st =
     (case rule_step B priority_mode rule st of
        Inl e \<Rightarrow> Inl e
      | Inr (Break st') \<Rightarrow> Inr st'
      | Inr (Continue st') \<Rightarrow> rule_loop B priority_mode rules st')"

text \<open>
  The result of \<^verbatim>\<open>evaluate\<close> (lines 342-357), without the two clock readings
  \<^verbatim>\<open>evaluated_at\<close> and \<^verbatim>\<open>elapsed_ms\<close>.
\<close>

record eval_result =
  res_context :: pydict
  rules_fired :: "pyval list"
  rules_skipped :: "pyval list"
  rules_fired_count :: nat
  rules_total :: nat
  execution_log :: "log_entry list"
  meta_ruleset :: string
  meta_ruleset_name :: pyval
  meta_version :: pyval
  meta_priority_mode :: pyval

text \<open>
  \<^verbatim>\<open>evaluate\<close> after the ruleset is loaded (lines 280-357). \<^verbatim>\<open>copy.deepcopy\<close> of a
  value is the value; \<^verbatim>\<open>setdefault\<close> exists on dictionaries only.
\<close>

definition setdefault_tags :: "pyval \<Rightarrow> py_error + pydict" where
  "setdefault_tags input_data =
     (case input_data of
        VDict d \<Rightarrow> Inr (if dict_find d (VStr ''tags'') = None
                         then dict_update d (VStr ''tags'') (VList []) else d)
      | _ \<Rightarrow> Inl AttributeError)"

definition evaluate_loaded :: "pyops \<Rightarrow> string \<Rightarrow> pydict \<Rightarrow> pyval \<Rightarrow> py_error + eval_result" where
  "evaluate_loaded B ruleset_name ruleset_data input_data =
     (case py_getitem (VDict ruleset_data) ''ruleset'' of Inl e \<Rightarrow> Inl e | Inr ruleset_meta \<Rightarrow>
      case py_get (VDict ruleset_data) ''rules'' (VList []) of Inl e \<Rightarrow> Inl e | Inr rules \<Rightarrow>
      case py_get ruleset_meta ''priority_mode'' (VStr ''all'') of
        Inl e \<Rightarrow> Inl e | Inr priority_mode \<Rightarrow>
      case setdefault_tags input_data of Inl e \<Rightarrow> Inl e | Inr ctx0 \<Rightarrow>
      case py_iter rules of Inl e \<Rightarrow> Inl e | Inr rs \<Rightarrow>
      case rule_loop B priority_mode rs
             \<lparr>ls_context = ctx0, ls_fired = [], ls_skipped = [], ls_log = []\<rparr> of
        Inl e \<Rightarrow> Inl e
      | Inr st \<Rightarrow>
      case py_len rules of Inl e \<Rightarrow> Inl e | Inr n_total \<Rightarrow>
      case py_get ruleset_meta ''name'' VNone of Inl e \<Rightarrow> Inl e | Inr rname \<Rightarrow>
      case py_get ruleset_meta ''version'' VNone of Inl e \<Rightarrow> Inl e | Inr version \<Rightarrow>
        Inr \<lparr>res_context = ls_context st, rules_fired = ls_fired st,
             rules_skipped = ls_skipped st, rules_fired_count = length (ls_fired st),
             rules_total = n_total, execution_log = ls_log st,
             meta_ruleset = ruleset_name, meta_ruleset_name = rname,
             meta_version = version, meta_priority_mode = priority_mode\<rparr>)"

text \<open>\<^verbatim>\<open>RulesEngine.evaluate\<close> (lines 266-357).\<close>

definition RulesEngine_evaluate ::
  "pyops \<Rightarrow> yaml_loader \<Rightarrow> string \<Rightarrow> engine \<Rightarrow> string \<Rightarrow> pyval \<Rightarrow> bool \<Rightarrow>
   (py_error + eval_result) \<times> engine" where
  "RulesEngine_evaluate B yaml now eng ruleset_name input_data force_reload =
     (case load_ruleset yaml now eng ruleset_name force_reload of
        (Inl e, eng') \<Rightarrow> (Inl e, eng')
      | (Inr ruleset_data, eng') \<Rightarrow>
          (evaluate_loaded B ruleset_name ruleset_data input_data, eng'))"

section \<open>A reference instance of the float operations\<close>

text \<open>
  Closed examples need one concrete \<open>pyops\<close>. \<open>exact_ops\<close> computes on the rational
  values without rounding to binary and prints them in decimal; it agrees with Python
  wherever the results are exactly representable and short, which is all the examples
  below use. Strings are quoted with single quotes.
\<close>

definition pow10 :: "int \<Rightarrow> rat" where
  "pow10 k = (if 0 \<le> k then 10 ^ nat k else 1 / 10 ^ nat (- k))"

definition signed_digits :: "string \<Rightarrow> int" where
  "signed_digits s = (if startswith s ''-'' then - digits_value s else digits_value s)"

definition exact_of_lit :: "string \<Rightarrow> pyfloat" where
  "exact_of_lit s =
     (let neg = startswith s ''-''; u = lower (unsign s) in
      if u = ''nan'' then NaN
      else if u = ''inf'' \<or> u = ''infinity'' then (if neg then NegInf else PosInf)
      else
        let m = takeWhile (\<lambda>c. c \<noteq> CHR ''e'') u;
            x = dropWhile (\<lambda>c. c \<noteq> CHR ''e'') u;
            f = dropWhile (\<lambda>c. c \<noteq> CHR ''.'') m;
            e = signed_digits (drop 1 x) - int (length (filter is_digit f));
            q = of_int (digits_value m) * pow10 e
        in if q = 0 \<and> neg then NegZero else Fin (if neg then - q else q))"

fun exact_rat :: "pyfloat \<Rightarrow> rat option" where
  "exact_rat (Fin q) = Some q"
| "exact_rat NegZero = Some 0"
| "exact_rat _ = None"

definition exact_bin :: "(rat \<Rightarrow> rat \<Rightarrow> rat) \<Rightarrow> pyfloat \<Rightarrow> pyfloat \<Rightarrow> pyfloat" where
  "exact_bin f a b =
     (case (exact_rat a, exact_rat b) of (Some x, Some y) \<Rightarrow> Fin (f x y) | _ \<Rightarrow> NaN)"

definition half_even :: "rat \<Rightarrow> int" where
  "half_even q =
     (let n = \<lfloor>q\<rfloor>; r = q - of_int n in
      if r < 1 / 2 then n else if 1 / 2 < r then n + 1 else if even n then n else n + 1)"

definition exact_round4 :: "pyfloat \<Rightarrow> pyfloat" where
  "exact_round4 a = (case a of Fin q \<Rightarrow> Fin (of_int (half_even (q * 10000)) / 10000) | _ \<Rightarrow> a)"

fun frac_digits :: "nat \<Rightarrow> rat \<Rightarrow> string" where
  "frac_digits 0 r = []"
| "frac_digits (Suc k) r =
     (if r = 0 then []
      else let d = \<lfloor>r * 10\<rfloor> in char_of (48 + nat d) # frac_digits k (r * 10 - of_int d))"

definition exact_repr :: "pyfloat \<Rightarrow> string" where
  "exact_repr a =
     (case a of
        NaN \<Rightarrow> ''nan'' | PosInf \<Rightarrow> ''inf'' | NegInf \<Rightarrow> ''-inf'' | NegZero \<Rightarrow> ''-0.0''
      | Fin q \<Rightarrow>
          (let p = \<bar>q\<bar>; n = \<lfloor>p\<rfloor>; fd = frac_digits 17 (p - of_int n) in
           (if q < 0 then ''-'' else []) @ digits_of_nat (nat n) @ ''.'' @
           (if fd = [] then ''0'' else fd)))"

definition exact_ops :: pyops where
  "exact_ops = \<lparr> f_of_int = (\<lambda>n. Fin (of_int n)), f_of_lit = exact_of_lit,
     f_mul = exact_bin (*), f_add = exact_bin (+), f_sub = exact_bin (-),
     f_div = exact_bin (/), f_round4 = exact_round4, f_repr = exact_repr,
     s_repr = (\<lambda>s. [CHR 0x27] @ s @ [CHR 0x27]) \<rparr>"

section \<open>Properties of the condition evaluator\<close>

lemma split_on_keyword_empty: "split_on_keyword [] kw = [[]]"
  by (simp add: split_on_keyword_def)

lemma strip_empty: "strip [] = []"
  by (simp add: strip_def)

lemma resolve_value_empty:
  "resolve_value B ctx [] = (case dict_find ctx (VStr []) of Some v \<Rightarrow> v | None \<Rightarrow> VNone)"
  by (simp add: resolve_value_def strip_def startswith_def endswith_def int_of_str_def
      int_syntax_def unsign_def float_of_str_def float_syntax_def decimal_syntax_def
      mantissa_syntax_def lower_def lookup_path_def split_dot_def)

lemma compare_loop_empty:
  "compare_loop B ctx [] op_order = Inr (py_bool (resolve_value B ctx []))"
  by (simp add: op_order_def)

text \<open>
  C1 (as the code has it). The empty condition is not special-cased: it contains no
  keyword and no operator, so it is resolved as a bare operand, and the empty token is
  looked up in the context under the empty key. Its value is the truth value of that
  entry, and false when the context has no such key.
\<close>

theorem empty_condition_value:
  "SafeEvaluator_evaluate B ctx [] =
     Inr (case dict_find ctx (VStr []) of Some v \<Rightarrow> py_bool v | None \<Rightarrow> False)"
  by (simp add: strip_empty split_on_keyword_empty startswith_def compare_loop_empty
      resolve_value_empty split: option.split)

theorem empty_condition_value_witness:
  "SafeEvaluator_evaluate exact_ops [(VStr ''tags'', VList [])] [] = Inr False \<and>
   SafeEvaluator_evaluate exact_ops [(VStr [], VInt 1)] [] = Inr True"
  using empty_condition_value[of exact_ops "[(VStr ''tags'', VList [])]"]
        empty_condition_value[of exact_ops "[(VStr [], VInt 1)]"]
  by simp

text \<open>
  C1 as stated fails: on the context that holds only the defaulted \<^verbatim>\<open>tags\<close> list the
  empty condition evaluates to false, and the loop skips the rule without running its
  SET action.
\<close>

theorem empty_condition_counterexample:
  "SafeEvaluator_evaluate exact_ops [(VStr ''tags'', VList [])] [] = Inr False \<and>
   rule_step exact_ops (VStr ''all'')
     (VDict [(VStr ''id'', VStr ''R1''), (VStr ''condition'', VStr []),
             (VStr ''actions'', VList [VDict [(VStr ''set'', VStr ''x''), (VStr ''value'', VInt 1)]])])
     \<lparr>ls_context = [(VStr ''tags'', VList [])], ls_fired = [], ls_skipped = [], ls_log = []\<rparr> =
   Inr (Continue \<lparr>ls_context = [(VStr ''tags'', VList [])], ls_fired = [],
                  ls_skipped = [VStr ''R1''],
                  ls_log = [unmatched_entry (VStr ''R1'') (VStr ''R1'') (VInt 50) (VStr [])]\<rparr>)"
  by code_simp















section \<open>Properties of the action interpreter\<close>

text \<open>
  A context whose keys are strings, and the message a LOG action renders on it: one
  \<^verbatim>\<open>replace\<close> per item, in order, each applied to the result of the one before.
\<close>

definition str_items :: "(string \<times> pyval) list \<Rightarrow> pydict" where
  "str_items items = map (\<lambda>(k, v). (VStr k, v)) items"

definition render :: "pyops \<Rightarrow> string \<Rightarrow> (string \<times> pyval) list \<Rightarrow> string" where
  "render B m items =
     foldl (\<lambda>msg (k, v). str_replace msg (''{'' @ k @ ''}'') (py_str B v)) m items"

lemma log_loop_render: "log_loop B m (str_items items) = Inr (render B m items)"
  by (induction items arbitrary: m) (auto simp: str_items_def render_def)

lemma if_in_dict:
  "if_in key (VDict a) yes no = (if dict_find a (VStr key) \<noteq> None then yes else no)"
  by (simp add: if_in_def)

lemma execute_action_log_only:
  "execute_action B (VDict [(VStr ''log'', m)]) ctx rid = action_log B (VDict [(VStr ''log'', m)]) ctx rid"
  by (simp add: execute_action_def if_in_dict)

text \<open>
  C3 (as the code has it). On a context with string keys the LOG action leaves the
  context as it is, and its log line is the rule tag \<^verbatim>\<open>[rule_id] LOG: \<close> followed by the
  rendered message.
\<close>

theorem log_line_rendering:
  "execute_action B (VDict [(VStr ''log'', m)]) (str_items items) rule_id =
     Inr (str_items items,
          Some (''['' @ py_str B rule_id @ ''] LOG: '' @ render B (py_str B m) items))"
  by (simp add: execute_action_log_only action_log_def log_loop_render log_tag_def)

theorem log_line_rendering_witness:
  "execute_action exact_ops (VDict [(VStr ''log'', VStr ''Premium is {base_premium}'')])
     (str_items [(''base_premium'', VFloat (Fin 360))]) (VStr ''R1'') =
   Inr (str_items [(''base_premium'', VFloat (Fin 360))], Some ''[R1] LOG: Premium is 360.0'')"
proof -
  have "''['' @ py_str exact_ops (VStr ''R1'') @ ''] LOG: '' @
        render exact_ops (py_str exact_ops (VStr ''Premium is {base_premium}''))
          [(''base_premium'', VFloat (Fin 360))] = ''[R1] LOG: Premium is 360.0''"
    by code_simp
  with log_line_rendering[of exact_ops "VStr ''Premium is {base_premium}''"
      "[(''base_premium'', VFloat (Fin 360))]" "VStr ''R1''"]
  show ?thesis by simp
qed

text \<open>
  C3 as stated fails twice. The log line of the spec's example is not the rendered
  message alone: it carries the rule tag. And the replacements are chained: a value
  put in for one key is rewritten when a later key's placeholder occurs in it.
\<close>

theorem log_line_counterexample:
  "execute_action exact_ops (VDict [(VStr ''log'', VStr ''Premium is {base_premium}'')])
     [(VStr ''base_premium'', VFloat (Fin 360))] (VStr ''R1'') =
   Inr ([(VStr ''base_premium'', VFloat (Fin 360))], Some ''[R1] LOG: Premium is 360.0'') \<and>
   execute_action exact_ops (VDict [(VStr ''log'', VStr ''{a}'')])
     [(VStr ''a'', VStr ''{b}''), (VStr ''b'', VStr ''x'')] (VStr ''R1'') =
   Inr ([(VStr ''a'', VStr ''{b}''), (VStr ''b'', VStr ''x'')], Some ''[R1] LOG: x'')"
  by code_simp

lemma execute_loop_append:
  "execute_loop B (pre @ post) ctx rid logs =
     (case execute_loop B pre ctx rid logs of
        Inl e \<Rightarrow> Inl e
      | Inr (ctx', logs') \<Rightarrow> execute_loop B post ctx' rid logs')"
  by (induction pre arbitrary: ctx logs) (auto split: sum.splits prod.splits)

lemma execute_loop_abort_iff:
  "execute_loop B acts ctx rid logs = Inl e \<longleftrightarrow>
     (\<exists>pre a post ctx' logs'. acts = pre @ a # post \<and>
        execute_loop B pre ctx rid logs = Inr (ctx', logs') \<and>
        execute_action B a ctx' rid = Inl e)"
proof (induction acts arbitrary: ctx logs)
  case Nil
  then show ?case by simp
next
  case (Cons a acts)
  show ?case
  proof (cases "execute_action B a ctx rid")
    case (Inl e')
    show ?thesis
    proof
      assume "execute_loop B (a # acts) ctx rid logs = Inl e"
      with Inl have "e' = e" by simp
      with Inl have "a # acts = [] @ a # acts \<and> execute_loop B [] ctx rid logs = Inr (ctx, logs) \<and>
        execute_action B a ctx rid = Inl e" by simp
      then show "\<exists>pre a' post ctx' logs'. a # acts = pre @ a' # post \<and>
        execute_loop B pre ctx rid logs = Inr (ctx', logs') \<and>
        execute_action B a' ctx' rid = Inl e" by blast
    next
      assume "\<exists>pre a' post ctx' logs'. a # acts = pre @ a' # post \<and>
        execute_loop B pre ctx rid logs = Inr (ctx', logs') \<and>
        execute_action B a' ctx' rid = Inl e"
      then obtain pre a' post ctx' logs' where
        s: "a # acts = pre @ a' # post" and
        p: "execute_loop B pre ctx rid logs = Inr (ctx', logs')" and
        f: "execute_action B a' ctx' rid = Inl e" by blast
      show "execute_loop B (a # acts) ctx rid logs = Inl e"
      proof (cases pre)
        case Nil
        with s p f Inl show ?thesis by simp
      next
        case (Cons b pre')
        with s have "b = a" by simp
        with Cons p Inl show ?thesis by simp
      qed
    qed
  next
    case (Inr r)
    obtain ctx1 le where r: "r = (ctx1, le)" by (cases r)
    define logs1 where "logs1 = (case le of Some l \<Rightarrow> if l \<noteq> [] then logs @ [l] else logs | None \<Rightarrow> logs)"
    have step: "\<And>xs. execute_loop B (a # xs) ctx rid logs = execute_loop B xs ctx1 rid logs1"
      using Inr r by (simp add: logs1_def)
    show ?thesis
    proof
      assume "execute_loop B (a # acts) ctx rid logs = Inl e"
      with step have "execute_loop B acts ctx1 rid logs1 = Inl e" by simp
      with Cons.IH obtain pre a' post ctx' logs' where
        "acts = pre @ a' # post" "execute_loop B pre ctx1 rid logs1 = Inr (ctx', logs')"
        "execute_action B a' ctx' rid = Inl e" by blast
      with step[of pre] have "a # acts = (a # pre) @ a' # post \<and>
        execute_loop B (a # pre) ctx rid logs = Inr (ctx', logs') \<and>
        execute_action B a' ctx' rid = Inl e" by simp
      then show "\<exists>pre a' post ctx' logs'. a # acts = pre @ a' # post \<and>
        execute_loop B pre ctx rid logs = Inr (ctx', logs') \<and>
        execute_action B a' ctx' rid = Inl e" by blast
    next
      assume "\<exists>pre a' post ctx' logs'. a # acts = pre @ a' # post \<and>
        execute_loop B pre ctx rid logs = Inr (ctx', logs') \<and>
        execute_action B a' ctx' rid = Inl e"
      then obtain pre a' post ctx' logs' where
        s: "a # acts = pre @ a' # post" and
        p: "execute_loop B pre ctx rid logs = Inr (ctx', logs')" and
        f: "execute_action B a' ctx' rid = Inl e" by blast
      show "execute_loop B (a # acts) ctx rid logs = Inl e"
      proof (cases pre)
        case Nil
        with s f p Inr show ?thesis by simp
      next
        case (Cons b pre')
        with s have b: "b = a" and acts: "acts = pre' @ a' # post" by simp_all
        from p Cons b step[of pre'] have "execute_loop B pre' ctx1 rid logs1 = Inr (ctx', logs')"
          by simp
        with acts f Cons.IH[of ctx1 logs1] have "execute_loop B acts ctx1 rid logs1 = Inl e"
          by blast
        with step show ?thesis by simp
      qed
    qed
  qed
qed

lemma dict_update_absent: "dict_find d k = None \<Longrightarrow> dict_update d k v = d @ [(k, v)]"
  by (induction d) (auto split: if_splits)

lemma float_of_int_zero: "float_of_int B 0 = Inr (Fin 0)"
  by (simp add: float_of_int_def)

lemma execute_action_multiply:
  "execute_action B (VDict [(VStr ''multiply'', f), (VStr ''by'', b)]) ctx rid =
   action_multiply B (VDict [(VStr ''multiply'', f), (VStr ''by'', b)]) ctx rid"
  by (simp add: execute_action_def if_in_dict)

lemma execute_action_add:
  "execute_action B (VDict [(VStr ''add'', f), (VStr ''by'', b)]) ctx rid =
   action_add B (VDict [(VStr ''add'', f), (VStr ''by'', b)]) ctx rid"
  by (simp add: execute_action_def if_in_dict)

lemma execute_action_subtract:
  "execute_action B (VDict [(VStr ''subtract'', f), (VStr ''by'', b)]) ctx rid =
   action_subtract B (VDict [(VStr ''subtract'', f), (VStr ''by'', b)]) ctx rid"
  by (simp add: execute_action_def if_in_dict)

lemma execute_action_divide:
  "execute_action B (VDict [(VStr ''divide'', f), (VStr ''by'', b)]) ctx rid =
   action_divide B (VDict [(VStr ''divide'', f), (VStr ''by'', b)]) ctx rid"
  by (simp add: execute_action_def if_in_dict)

lemma execute_action_append:
  "execute_action B (VDict [(VStr ''append'', f), (VStr ''value'', v)]) ctx rid =
   action_append B (VDict [(VStr ''append'', f), (VStr ''value'', v)]) ctx rid"
  by (simp add: execute_action_def if_in_dict)

lemma execute_action_set:
  "execute_action B (VDict [(VStr ''set'', f), (VStr ''value'', v)]) ctx rid =
   action_set B (VDict [(VStr ''set'', f), (VStr ''value'', v)]) ctx rid"
  by (simp add: execute_action_def if_in_dict)

lemma action_arith_absent:
  assumes "hashable f" "dict_find ctx f = None" "py_float B b = Inr y" "key \<noteq> ''by''"
  shows "\<exists>line. action_arith B key dflt fop name opsym (VDict [(VStr key, f), (VStr ''by'', b)]) ctx rid =
           Inr (ctx @ [(f, VFloat (f_round4 B (fop (Fin 0) y)))], Some line)"
  using assms
  by (simp add: action_arith_def dict_get_def dict_set_def float_of_int_zero dict_update_absent)

lemma action_divide_zero:
  assumes "hashable f" "py_float B d = Inr dv" "f_eq dv (Fin 0)"
  shows "\<exists>line. action_divide B (VDict [(VStr ''divide'', f), (VStr ''by'', d)]) ctx rid =
           Inr (ctx, Some line)"
  using assms by (simp add: action_divide_def dict_get_def)

lemma action_divide_nonzero:
  assumes "hashable f" "py_float B d = Inr dv" "\<not> f_eq dv (Fin 0)"
    "py_float B (case dict_find ctx f of Some c \<Rightarrow> c | None \<Rightarrow> VInt 0) = Inr x"
  shows "\<exists>line. action_divide B (VDict [(VStr ''divide'', f), (VStr ''by'', d)]) ctx rid =
           Inr (dict_update ctx f (VFloat (f_round4 B (f_div B x dv))), Some line)"
  using assms by (simp add: action_divide_def dict_get_def dict_set_def)

lemma action_append_absent:
  assumes "hashable f" "dict_find ctx f = None"
  shows "\<exists>line. action_append B (VDict [(VStr ''append'', f), (VStr ''value'', v)]) ctx rid =
           Inr (ctx @ [(f, VList [v])], Some line)"
  using assms by (simp add: action_append_def dict_get_def dict_set_def dict_update_absent)

text \<open>
  C4 (as the code has it). \<^verbatim>\<open>execute\<close> has no handler: the sequence aborts with an error
  exactly when some action raises in the context its predecessors left, and the
  actions after it do not run. An action on a field that is absent from the context
  takes 0 for it (MULTIPLY, ADD, SUBTRACT, and DIVIDE by a divisor that is not zero),
  given that the operand converts to a float; APPEND creates a list holding the value.
\<close>

theorem action_sequence_abort_and_defaults:
  "(execute_loop B acts ctx rid logs = Inl e \<longleftrightarrow>
      (\<exists>pre a post ctx' logs'. acts = pre @ a # post \<and>
         execute_loop B pre ctx rid logs = Inr (ctx', logs') \<and>
         execute_action B a ctx' rid = Inl e)) \<and>
   (hashable f \<longrightarrow> dict_find ctx f = None \<longrightarrow> py_float B b = Inr y \<longrightarrow>
      (\<exists>line. execute_action B (VDict [(VStr ''multiply'', f), (VStr ''by'', b)]) ctx rid =
         Inr (ctx @ [(f, VFloat (f_round4 B (f_mul B (Fin 0) y)))], Some line)) \<and>
      (\<exists>line. execute_action B (VDict [(VStr ''add'', f), (VStr ''by'', b)]) ctx rid =
         Inr (ctx @ [(f, VFloat (f_round4 B (f_add B (Fin 0) y)))], Some line)) \<and>
      (\<exists>line. execute_action B (VDict [(VStr ''subtract'', f), (VStr ''by'', b)]) ctx rid =
         Inr (ctx @ [(f, VFloat (f_round4 B (f_sub B (Fin 0) y)))], Some line)) \<and>
      (\<not> f_eq y (Fin 0) \<longrightarrow>
         (\<exists>line. execute_action B (VDict [(VStr ''divide'', f), (VStr ''by'', b)]) ctx rid =
            Inr (ctx @ [(f, VFloat (f_round4 B (f_div B (Fin 0) y)))], Some line)))) \<and>
   (hashable f \<longrightarrow> dict_find ctx f = None \<longrightarrow>
      (\<exists>line. execute_action B (VDict [(VStr ''append'', f), (VStr ''value'', v)]) ctx rid =
         Inr (ctx @ [(f, VList [v])], Some line)))"
proof (intro conjI impI)
  show "execute_loop B acts ctx rid logs = Inl e \<longleftrightarrow>
      (\<exists>pre a post ctx' logs'. acts = pre @ a # post \<and>
         execute_loop B pre ctx rid logs = Inr (ctx', logs') \<and>
         execute_action B a ctx' rid = Inl e)"
    by (rule execute_loop_abort_iff)
next
  assume h: "hashable f" "dict_find ctx f = None" "py_float B b = Inr y"
  show "\<exists>line. execute_action B (VDict [(VStr ''multiply'', f), (VStr ''by'', b)]) ctx rid =
         Inr (ctx @ [(f, VFloat (f_round4 B (f_mul B (Fin 0) y)))], Some line)"
    using action_arith_absent[OF h, of "''multiply''"]
    by (simp add: execute_action_multiply action_multiply_def)
  show "\<exists>line. execute_action B (VDict [(VStr ''add'', f), (VStr ''by'', b)]) ctx rid =
         Inr (ctx @ [(f, VFloat (f_round4 B (f_add B (Fin 0) y)))], Some line)"
    using action_arith_absent[OF h, of "''add''"]
    by (simp add: execute_action_add action_add_def)
  show "\<exists>line. execute_action B (VDict [(VStr ''subtract'', f), (VStr ''by'', b)]) ctx rid =
         Inr (ctx @ [(f, VFloat (f_round4 B (f_sub B (Fin 0) y)))], Some line)"
    using action_arith_absent[OF h, of "''subtract''"]
    by (simp add: execute_action_subtract action_subtract_def)
  assume nz: "\<not> f_eq y (Fin 0)"
  show "\<exists>line. execute_action B (VDict [(VStr ''divide'', f), (VStr ''by'', b)]) ctx rid =
            Inr (ctx @ [(f, VFloat (f_round4 B (f_div B (Fin 0) y)))], Some line)"
    using action_divide_nonzero[OF h(1) h(3) nz, of ctx "Fin 0" rid] h(2)
    by (simp add: execute_action_divide float_of_int_zero dict_update_absent)
next
  assume h: "hashable f" "dict_find ctx f = None"
  show "\<exists>line. execute_action B (VDict [(VStr ''append'', f), (VStr ''value'', v)]) ctx rid =
         Inr (ctx @ [(f, VList [v])], Some line)"
    using action_append_absent[OF h] by (simp add: execute_action_append)
qed

theorem action_sequence_abort_and_defaults_witness:
  "execute_loop exact_ops
     [VDict [(VStr ''add'', VStr ''tags''), (VStr ''by'', VInt 1)],
      VDict [(VStr ''set'', VStr ''x''), (VStr ''value'', VInt 1)]]
     [(VStr ''tags'', VList [])] (VStr ''R1'') [] = Inl TypeError \<and>
   hashable (VStr ''score'') \<and> dict_find [(VStr ''tags'', VList [])] (VStr ''score'') = None \<and>
   py_float exact_ops (VInt 2) = Inr (Fin 2) \<and> \<not> f_eq (Fin 2) (Fin 0) \<and>
   (\<exists>line. execute_action exact_ops (VDict [(VStr ''multiply'', VStr ''score''), (VStr ''by'', VInt 2)])
      [(VStr ''tags'', VList [])] (VStr ''R1'') =
      Inr ([(VStr ''tags'', VList [])] @
           [(VStr ''score'', VFloat (f_round4 exact_ops (f_mul exact_ops (Fin 0) (Fin 2))))],
           Some line)) \<and>
   (\<exists>line. execute_action exact_ops (VDict [(VStr ''divide'', VStr ''score''), (VStr ''by'', VInt 2)])
      [(VStr ''tags'', VList [])] (VStr ''R1'') =
      Inr ([(VStr ''tags'', VList [])] @
           [(VStr ''score'', VFloat (f_round4 exact_ops (f_div exact_ops (Fin 0) (Fin 2))))],
           Some line)) \<and>
   (\<exists>line. execute_action exact_ops (VDict [(VStr ''append'', VStr ''score''), (VStr ''value'', VInt 7)])
      [(VStr ''tags'', VList [])] (VStr ''R1'') =
      Inr ([(VStr ''tags'', VList [])] @ [(VStr ''score'', VList [VInt 7])], Some line))"
proof -
  let ?a1 = "VDict [(VStr ''add'', VStr ''tags''), (VStr ''by'', VInt 1)]"
  let ?a2 = "VDict [(VStr ''set'', VStr ''x''), (VStr ''value'', VInt 1)]"
  let ?ctx = "[(VStr ''tags'', VList [])]"
  have h1: "hashable (VStr ''score'')" by simp
  have h2: "dict_find ?ctx (VStr ''score'') = None" by simp
  have h3: "py_float exact_ops (VInt 2) = Inr (Fin 2)" by (simp add: float_of_int_def)
  have h4: "\<not> f_eq (Fin 2) (Fin 0)" by (simp add: f_eq_def)
  have a1: "execute_action exact_ops ?a1 ?ctx (VStr ''R1'') = Inl TypeError" by code_simp
  have "[?a1, ?a2] = [] @ ?a1 # [?a2] \<and>
        execute_loop exact_ops [] ?ctx (VStr ''R1'') [] = Inr (?ctx, []) \<and>
        execute_action exact_ops ?a1 ?ctx (VStr ''R1'') = Inl TypeError"
    using a1 by simp
  then have rhs: "\<exists>pre a post ctx' logs'. [?a1, ?a2] = pre @ a # post \<and>
        execute_loop exact_ops pre ?ctx (VStr ''R1'') [] = Inr (ctx', logs') \<and>
        execute_action exact_ops a ctx' (VStr ''R1'') = Inl TypeError"
    by blast
  from action_sequence_abort_and_defaults[of exact_ops "[?a1, ?a2]" ?ctx "VStr ''R1''" "[]"
      TypeError "VStr ''score''" "VInt 2" "Fin 2" "VInt 7"] rhs h1 h2 h3 h4
  show ?thesis by blast
qed

text \<open>
  C4 as stated fails: ADD on the \<^verbatim>\<open>tags\<close> list raises \<^verbatim>\<open>TypeError\<close> from \<^verbatim>\<open>float\<close>, and
  the SET action after it does not run.
\<close>

theorem action_sequence_counterexample:
  "execute exact_ops
     (VList [VDict [(VStr ''add'', VStr ''tags''), (VStr ''by'', VInt 1)],
             VDict [(VStr ''set'', VStr ''x''), (VStr ''value'', VInt 1)]])
     [(VStr ''tags'', VList [])] (VStr ''R1'') = Inl TypeError"
  by code_simp

text \<open>
  C8. For a DIVIDE descriptor whose field name is hashable and whose divisor converts
  to a float: when that float is zero the action returns its log line and the context
  is the one it was given; when it is not zero, and the field's current value (0 when
  absent) converts to a float, the field holds the quotient rounded to four places.
\<close>

theorem divide_zero_noop_else_quotient:
  "hashable f \<Longrightarrow> py_float B d = Inr dv \<Longrightarrow>
   (f_eq dv (Fin 0) \<longrightarrow>
      (\<exists>line. execute_action B (VDict [(VStr ''divide'', f), (VStr ''by'', d)]) ctx rid =
         Inr (ctx, Some line))) \<and>
   (\<not> f_eq dv (Fin 0) \<longrightarrow>
    py_float B (case dict_find ctx f of Some c \<Rightarrow> c | None \<Rightarrow> VInt 0) = Inr x \<longrightarrow>
      (\<exists>line. execute_action B (VDict [(VStr ''divide'', f), (VStr ''by'', d)]) ctx rid =
         Inr (dict_update ctx f (VFloat (f_round4 B (f_div B x dv))), Some line)))"
  using action_divide_zero[of f B d dv ctx rid] action_divide_nonzero[of f B d dv ctx x rid]
  by (simp add: execute_action_divide)

theorem divide_zero_noop_else_quotient_witness:
  "hashable (VStr ''base'') \<and> py_float exact_ops (VInt 0) = Inr (Fin 0) \<and> f_eq (Fin 0) (Fin 0) \<and>
   (\<exists>line. execute_action exact_ops (VDict [(VStr ''divide'', VStr ''base''), (VStr ''by'', VInt 0)])
      [(VStr ''base'', VFloat (Fin 400))] (VStr ''R1'') =
      Inr ([(VStr ''base'', VFloat (Fin 400))], Some line)) \<and>
   py_float exact_ops (VInt 4) = Inr (Fin 4) \<and> \<not> f_eq (Fin 4) (Fin 0) \<and>
   (\<exists>line. execute_action exact_ops (VDict [(VStr ''divide'', VStr ''base''), (VStr ''by'', VInt 4)])
      [(VStr ''base'', VFloat (Fin 400))] (VStr ''R1'') =
      Inr ([(VStr ''base'', VFloat (Fin 100))], Some line))"
proof -
  let ?ctx = "[(VStr ''base'', VFloat (Fin 400))]"
  have h1: "hashable (VStr ''base'')" by simp
  have z: "py_float exact_ops (VInt 0) = Inr (Fin 0)" by (simp add: float_of_int_def)
  have z0: "f_eq (Fin 0) (Fin 0)" by (simp add: f_eq_def)
  have n: "py_float exact_ops (VInt 4) = Inr (Fin 4)" by (simp add: float_of_int_def)
  have n0: "\<not> f_eq (Fin 4) (Fin 0)" by (simp add: f_eq_def)
  have c: "py_float exact_ops (case dict_find ?ctx (VStr ''base'') of Some c \<Rightarrow> c | None \<Rightarrow> VInt 0) =
           Inr (Fin 400)" by simp
  have q: "dict_update ?ctx (VStr ''base'')
             (VFloat (f_round4 exact_ops (f_div exact_ops (Fin 400) (Fin 4)))) =
           [(VStr ''base'', VFloat (Fin 100))]"
    by code_simp
  from divide_zero_noop_else_quotient[OF h1 z, of ?ctx "VStr ''R1''"]
       divide_zero_noop_else_quotient[OF h1 n, of ?ctx "VStr ''R1''" "Fin 400"]
       h1 z z0 n n0 c q
  show ?thesis by simp
qed

section \<open>Properties of the evaluation loop\<close>

text \<open>
  The id the loop reads from a rule, whether a rule's condition holds on a context, and
  the two things a step of the loop returns.
\<close>

definition rule_id_of :: "pyval \<Rightarrow> pyval" where
  "rule_id_of rule = (case py_get rule ''id'' (VStr ''???'') of Inr i \<Rightarrow> i | Inl _ \<Rightarrow> VNone)"

definition rule_matches :: "pyops \<Rightarrow> pyval \<Rightarrow> pydict \<Rightarrow> bool" where
  "rule_matches B rule ctx =
     (case py_get rule ''condition'' (VStr []) of
        Inr c \<Rightarrow> evaluate_condition B ctx c = Inr True
      | Inl _ \<Rightarrow> False)"

fun flow_state :: "'a flow \<Rightarrow> 'a" where
  "flow_state (Continue s) = s"
| "flow_state (Break s) = s"

fun is_break :: "'a flow \<Rightarrow> bool" where
  "is_break (Continue s) = False"
| "is_break (Break s) = True"

definition first_match :: pyval where
  "first_match = VStr ''first_match''"

lemma scalar_eq_str: "scalar_eq v (VStr s) = (v = VStr s)"
  by (cases v) auto

lemma rule_step_shape:
  assumes "rule_step B mode r st = Inr fl"
  shows "\<exists>e. ls_log (flow_state fl) = ls_log st @ [e] \<and> le_rule_id e = rule_id_of r \<and>
           ls_fired (flow_state fl) = ls_fired st @ (if le_matched e then [rule_id_of r] else []) \<and>
           ls_skipped (flow_state fl) = ls_skipped st @ (if le_matched e then [] else [rule_id_of r]) \<and>
           is_break fl = (le_matched e \<and> mode = first_match)"
  using assms
  unfolding rule_step_def on_match_def rule_id_of_def first_match_def
  by (auto split: sum.splits if_splits prod.splits
      simp: Let_def error_entry_def matched_entry_def unmatched_entry_def scalar_eq_str)

lemma rule_step_match_first:
  assumes "rule_matches B r (ls_context st)"
  shows "rule_loop B first_match (r # post) st = rule_loop B first_match [r] st"
proof (cases "rule_step B first_match r st")
  case (Inl e)
  then show ?thesis by simp
next
  case (Inr fl)
  from rule_step_shape[OF Inr] assms Inr have "is_break fl"
    unfolding rule_matches_def rule_step_def on_match_def first_match_def
    by (auto split: sum.splits if_splits prod.splits simp: Let_def scalar_eq_str)
  then obtain st' where "fl = Break st'" by (cases fl) auto
  with Inr show ?thesis by simp
qed

lemma first_match_truncate:
  assumes "\<And>st1. rule_loop B first_match pre st = Inr st1 \<Longrightarrow> rule_matches B r (ls_context st1)"
  shows "rule_loop B first_match (pre @ r # post) st = rule_loop B first_match (pre @ [r]) st"
  using assms
proof (induction pre arbitrary: st)
  case Nil
  then show ?case using rule_step_match_first[of B r st post] by simp
next
  case (Cons p pre)
  show ?case
  proof (cases "rule_step B first_match p st")
    case (Inl e)
    then show ?thesis by simp
  next
    case (Inr fl)
    show ?thesis
    proof (cases fl)
      case (Continue st')
      with Inr Cons.prems have "\<And>st1. rule_loop B first_match pre st' = Inr st1 \<Longrightarrow>
          rule_matches B r (ls_context st1)" by simp
      from Cons.IH[OF this] Inr Continue show ?thesis by simp
    next
      case (Break st')
      with Inr show ?thesis by simp
    qed
  qed
qed

lemma rule_loop_shape:
  assumes "rule_loop B mode rules st = Inr st'"
  shows "\<exists>es. ls_log st' = ls_log st @ es \<and>
           map le_rule_id es = map rule_id_of (take (length es) rules) \<and>
           length es \<le> length rules \<and>
           ls_fired st' = ls_fired st @ map le_rule_id (filter le_matched es) \<and>
           ls_skipped st' = ls_skipped st @ map le_rule_id (filter (\<lambda>e. \<not> le_matched e) es) \<and>
           (mode = first_match \<longrightarrow> filter le_matched (butlast es) = []) \<and>
           (mode \<noteq> first_match \<longrightarrow> length es = length rules)"
  using assms
proof (induction rules arbitrary: st)
  case Nil
  then show ?case by simp
next
  case (Cons r rules)
  from Cons.prems obtain fl where fl: "rule_step B mode r st = Inr fl"
    by (cases "rule_step B mode r st") auto
  from rule_step_shape[OF fl] obtain e where e:
    "ls_log (flow_state fl) = ls_log st @ [e]" "le_rule_id e = rule_id_of r"
    "ls_fired (flow_state fl) = ls_fired st @ (if le_matched e then [rule_id_of r] else [])"
    "ls_skipped (flow_state fl) = ls_skipped st @ (if le_matched e then [] else [rule_id_of r])"
    "is_break fl = (le_matched e \<and> mode = first_match)" by blast
  show ?case
  proof (cases fl)
    case (Break s)
    with fl Cons.prems have "st' = s" by simp
    with Break e show ?thesis
      by (intro exI[of _ "[e]"]) auto
  next
    case (Continue s)
    with fl Cons.prems have "rule_loop B mode rules s = Inr st'" by simp
    from Cons.IH[OF this] obtain es where es:
      "ls_log st' = ls_log s @ es"
      "map le_rule_id es = map rule_id_of (take (length es) rules)"
      "length es \<le> length rules"
      "ls_fired st' = ls_fired s @ map le_rule_id (filter le_matched es)"
      "ls_skipped st' = ls_skipped s @ map le_rule_id (filter (\<lambda>e. \<not> le_matched e) es)"
      "mode = first_match \<longrightarrow> filter le_matched (butlast es) = []"
      "mode \<noteq> first_match \<longrightarrow> length es = length rules" by blast
    from Continue e have nm: "mode = first_match \<longrightarrow> \<not> le_matched e" by auto
    have bl: "mode = first_match \<longrightarrow> filter le_matched (butlast (e # es)) = []"
      using nm es(6) by (cases es) auto
    from Continue e es bl show ?thesis
      by (intro exI[of _ "e # es"]) auto
  qed
qed

lemma rule_loop_fired_first_match:
  assumes "rule_loop B first_match rules st = Inr st'"
  shows "length (ls_fired st') \<le> length (ls_fired st) + 1"
proof -
  from rule_loop_shape[OF assms] obtain es where all:
    "ls_log st' = ls_log st @ es \<and>
     map le_rule_id es = map rule_id_of (take (length es) rules) \<and>
     length es \<le> length rules \<and>
     ls_fired st' = ls_fired st @ map le_rule_id (filter le_matched es) \<and>
     ls_skipped st' = ls_skipped st @ map le_rule_id (filter (\<lambda>e. \<not> le_matched e) es) \<and>
     (first_match = first_match \<longrightarrow> filter le_matched (butlast es) = []) \<and>
     (first_match \<noteq> first_match \<longrightarrow> length es = length rules)"
    by (rule exE)
  then have es: "ls_fired st' = ls_fired st @ map le_rule_id (filter le_matched es)"
    "filter le_matched (butlast es) = []" by simp_all
  have "length (filter le_matched es) \<le> 1"
  proof (cases es rule: rev_cases)
    case Nil
    then show ?thesis by simp
  next
    case (snoc xs x)
    with es(2) show ?thesis by simp
  qed
  with es(1) show ?thesis by simp
qed

text \<open>
  C5. Under \<^verbatim>\<open>first_match\<close>, when the rule \<open>r\<close> matches in the state in which the loop
  reaches it, the rules after it play no part: the pass over the whole list is the
  pass over the list cut after \<open>r\<close>, whatever the conditions of the later rules are.
  A pass under \<^verbatim>\<open>first_match\<close> adds at most one rule to the fired list.
\<close>

theorem first_match_stops_after_match:
  "((\<forall>st1. rule_loop B first_match pre st = Inr st1 \<longrightarrow> rule_matches B r (ls_context st1)) \<longrightarrow>
      rule_loop B first_match (pre @ r # post) st = rule_loop B first_match (pre @ [r]) st) \<and>
   (rule_loop B first_match rules st = Inr st' \<longrightarrow>
      length (ls_fired st') \<le> length (ls_fired st) + 1)"
  using first_match_truncate[of B pre st r post] rule_loop_fired_first_match[of B rules st st']
  by blast

definition loaded_rules :: "pydict \<Rightarrow> py_error + pyval list" where
  "loaded_rules ruleset_data =
     (case py_get (VDict ruleset_data) ''rules'' (VList []) of
        Inl e \<Rightarrow> Inl e
      | Inr rules \<Rightarrow> py_iter rules)"

lemma py_len_iter: "py_len v = Inr n \<Longrightarrow> py_iter v = Inr rs \<Longrightarrow> n = length rs"
  by (cases v) auto

lemma evaluate_loaded_shape:
  assumes "evaluate_loaded B name ruleset_data input_data = Inr res"
  shows "\<exists>rs ctx0 st'. loaded_rules ruleset_data = Inr rs \<and>
           setdefault_tags input_data = Inr ctx0 \<and>
           rule_loop B (meta_priority_mode res) rs
             \<lparr>ls_context = ctx0, ls_fired = [], ls_skipped = [], ls_log = []\<rparr> = Inr st' \<and>
           res_context res = ls_context st' \<and> rules_fired res = ls_fired st' \<and>
           rules_skipped res = ls_skipped st' \<and> execution_log res = ls_log st' \<and>
           rules_fired_count res = length (ls_fired st') \<and> rules_total res = length rs"
  using assms
  unfolding evaluate_loaded_def loaded_rules_def
  by (auto split: sum.splits option.splits dest: py_len_iter)

lemma evaluate_result_invariants:
  assumes "evaluate_loaded B name ruleset_data input_data = Inr res"
  shows "\<exists>rs. loaded_rules ruleset_data = Inr rs \<and> rules_total res = length rs \<and>
     map le_rule_id (execution_log res) = map rule_id_of (take (length (execution_log res)) rs) \<and>
     rules_fired_count res = length (rules_fired res) \<and>
     length (execution_log res) = length (rules_fired res) + length (rules_skipped res) \<and>
     length (execution_log res) \<le> rules_total res \<and>
     rules_fired res = map le_rule_id (filter le_matched (execution_log res)) \<and>
     rules_skipped res = map le_rule_id (filter (\<lambda>e. \<not> le_matched e) (execution_log res)) \<and>
     (meta_priority_mode res = first_match \<longrightarrow>
        filter le_matched (butlast (execution_log res)) = []) \<and>
     (meta_priority_mode res \<noteq> first_match \<longrightarrow> length (execution_log res) = rules_total res)"
proof -
  from evaluate_loaded_shape[OF assms] obtain rs ctx0 st' where sh:
    "loaded_rules ruleset_data = Inr rs"
    "rule_loop B (meta_priority_mode res) rs
       \<lparr>ls_context = ctx0, ls_fired = [], ls_skipped = [], ls_log = []\<rparr> = Inr st'"
    "rules_fired res = ls_fired st'" "rules_skipped res = ls_skipped st'"
    "execution_log res = ls_log st'" "rules_fired_count res = length (ls_fired st')"
    "rules_total res = length rs" by blast
  from rule_loop_shape[OF sh(2)] obtain es where all:
    "ls_log st' = ls_log \<lparr>ls_context = ctx0, ls_fired = [], ls_skipped = [], ls_log = []\<rparr> @ es \<and>
     map le_rule_id es = map rule_id_of (take (length es) rs) \<and>
     length es \<le> length rs \<and>
     ls_fired st' = ls_fired \<lparr>ls_context = ctx0, ls_fired = [], ls_skipped = [], ls_log = []\<rparr> @
        map le_rule_id (filter le_matched es) \<and>
     ls_skipped st' = ls_skipped \<lparr>ls_context = ctx0, ls_fired = [], ls_skipped = [], ls_log = []\<rparr> @
        map le_rule_id (filter (\<lambda>e. \<not> le_matched e) es) \<and>
     (meta_priority_mode res = first_match \<longrightarrow> filter le_matched (butlast es) = []) \<and>
     (meta_priority_mode res \<noteq> first_match \<longrightarrow> length es = length rs)"
    by (rule exE)
  then have es: "ls_log st' = es" "map le_rule_id es = map rule_id_of (take (length es) rs)"
    "length es \<le> length rs" "ls_fired st' = map le_rule_id (filter le_matched es)"
    "ls_skipped st' = map le_rule_id (filter (\<lambda>e. \<not> le_matched e) es)"
    "meta_priority_mode res = first_match \<longrightarrow> filter le_matched (butlast es) = []"
    "meta_priority_mode res \<noteq> first_match \<longrightarrow> length es = length rs"
    by simp_all
  have cnt: "length es = length (filter le_matched es) + length (filter (\<lambda>e. \<not> le_matched e) es)"
    by (rule sum_length_filter_compl[symmetric])
  show ?thesis
    using sh(1,3-7) es cnt by (intro exI[of _ rs]) simp
qed

text \<open>
  Fixtures for closed examples: a rule entry with the keys \<^verbatim>\<open>id\<close>, \<^verbatim>\<open>priority\<close> (when
  given), \<^verbatim>\<open>condition\<close> and \<^verbatim>\<open>actions\<close>; a document with a metadata block and a rule
  list; an engine whose directory \<^verbatim>\<open>rules\<close> holds the one file \<^verbatim>\<open>demo.yaml\<close> and whose
  cache is empty; and a YAML loader that knows the parse of that one text.
\<close>

definition mk_rule :: "string \<Rightarrow> int option \<Rightarrow> string \<Rightarrow> pyval list \<Rightarrow> pyval" where
  "mk_rule i p c acts =
     VDict ([(VStr ''id'', VStr i)] @
            (case p of None \<Rightarrow> [] | Some n \<Rightarrow> [(VStr ''priority'', VInt n)]) @
            [(VStr ''condition'', VStr c), (VStr ''actions'', VList acts)])"

definition mk_doc :: "string \<Rightarrow> pyval list \<Rightarrow> pyval" where
  "mk_doc mode rs =
     VDict [(VStr ''ruleset'', VDict [(VStr ''name'', VStr ''demo''),
                                     (VStr ''priority_mode'', VStr mode)]),
            (VStr ''rules'', VList rs)]"

definition demo_engine :: "string \<Rightarrow> engine" where
  "demo_engine doc_text =
     \<lparr>rules_dir = ''rules'',
      fs = [''rules/demo.yaml'' \<mapsto> \<lparr>content = doc_text, mtime = Fin 1\<rparr>],
      cache = Map.empty\<rparr>"

definition demo_yaml :: "string \<Rightarrow> pyval \<Rightarrow> yaml_loader" where
  "demo_yaml doc_text doc = (\<lambda>s. if s = doc_text then Inr doc else Inl YAMLError)"

definition start_state :: "pydict \<Rightarrow> loop_state" where
  "start_state ctx = \<lparr>ls_context = ctx, ls_fired = [], ls_skipped = [], ls_log = []\<rparr>"

theorem first_match_stops_after_match_witness:
  "rule_loop exact_ops first_match
     ([mk_rule ''P'' None ''age > 100'' []] @ mk_rule ''A'' None ''age > 60'' [] #
      [mk_rule ''C'' None ''age > 1'' []])
     (start_state [(VStr ''age'', VInt 67)]) =
   rule_loop exact_ops first_match
     ([mk_rule ''P'' None ''age > 100'' []] @ [mk_rule ''A'' None ''age > 60'' []])
     (start_state [(VStr ''age'', VInt 67)]) \<and>
   rule_matches exact_ops (mk_rule ''C'' None ''age > 1'' []) [(VStr ''age'', VInt 67)] \<and>
   map_sum id (\<lambda>s. (ls_fired s, ls_skipped s, length (ls_log s)))
     (rule_loop exact_ops first_match
        ([mk_rule ''P'' None ''age > 100'' []] @ mk_rule ''A'' None ''age > 60'' [] #
         [mk_rule ''C'' None ''age > 1'' []])
        (start_state [(VStr ''age'', VInt 67)])) =
   Inr ([VStr ''A''], [VStr ''P''], 2)"
proof -
  let ?P = "mk_rule ''P'' None ''age > 100'' []"
  let ?A = "mk_rule ''A'' None ''age > 60'' []"
  let ?C = "mk_rule ''C'' None ''age > 1'' []"
  let ?st = "start_state [(VStr ''age'', VInt 67)]"
  have p: "map_sum id ls_context (rule_loop exact_ops first_match [?P] ?st) =
           Inr [(VStr ''age'', VInt 67)]"
    by code_simp
  have a: "rule_matches exact_ops ?A [(VStr ''age'', VInt 67)]" by code_simp
  have c: "rule_matches exact_ops ?C [(VStr ''age'', VInt 67)]" by code_simp
  have hyp: "\<forall>st1. rule_loop exact_ops first_match [?P] ?st = Inr st1 \<longrightarrow>
               rule_matches exact_ops ?A (ls_context st1)"
    using p a by auto
  have r: "map_sum id (\<lambda>s. (ls_fired s, ls_skipped s, length (ls_log s)))
             (rule_loop exact_ops first_match ([?P] @ [?A]) ?st) =
           Inr ([VStr ''A''], [VStr ''P''], 2)"
    by code_simp
  from first_match_stops_after_match[of exact_ops "[?P]" ?st ?A "[?C]"] hyp
  have eq: "rule_loop exact_ops first_match ([?P] @ ?A # [?C]) ?st =
            rule_loop exact_ops first_match ([?P] @ [?A]) ?st" by blast
  with r c show ?thesis by simp
qed

text \<open>
  C10. A run of \<^verbatim>\<open>evaluate\<close> that returns: the count is the length of the fired list; the
  log has one entry per rule visited, and the rules visited are a prefix of the loaded
  rule list; each entry's rule is on the fired list when the entry is a match and on
  the skipped list otherwise, so the log is as long as the two lists together; under
  \<^verbatim>\<open>first_match\<close> only the last entry can be a match, and under any other mode every
  rule is visited.
\<close>

theorem evaluation_result_invariants:
  "RulesEngine_evaluate B yaml now eng name input_data force_reload = (Inr res, eng') \<Longrightarrow>
   \<exists>ruleset_data rs.
     load_ruleset yaml now eng name force_reload = (Inr ruleset_data, eng') \<and>
     loaded_rules ruleset_data = Inr rs \<and> rules_total res = length rs \<and>
     map le_rule_id (execution_log res) = map rule_id_of (take (length (execution_log res)) rs) \<and>
     rules_fired_count res = length (rules_fired res) \<and>
     length (execution_log res) = length (rules_fired res) + length (rules_skipped res) \<and>
     length (execution_log res) \<le> rules_total res \<and>
     rules_fired res = map le_rule_id (filter le_matched (execution_log res)) \<and>
     rules_skipped res = map le_rule_id (filter (\<lambda>e. \<not> le_matched e) (execution_log res)) \<and>
     (meta_priority_mode res = first_match \<longrightarrow>
        filter le_matched (butlast (execution_log res)) = []) \<and>
     (meta_priority_mode res \<noteq> first_match \<longrightarrow> length (execution_log res) = rules_total res)"
proof -
  assume run: "RulesEngine_evaluate B yaml now eng name input_data force_reload = (Inr res, eng')"
  obtain lr le where l: "load_ruleset yaml now eng name force_reload = (lr, le)"
    by (cases "load_ruleset yaml now eng name force_reload")
  with run obtain ruleset_data where d: "lr = Inr ruleset_data"
    by (cases lr) (auto simp: RulesEngine_evaluate_def)
  with l run have ev: "evaluate_loaded B name ruleset_data input_data = Inr res" and e: "le = eng'"
    by (auto simp: RulesEngine_evaluate_def)
  from evaluate_result_invariants[OF ev] l d e show ?thesis by auto
qed

theorem evaluation_result_invariants_witness:
  "\<exists>res eng'.
     RulesEngine_evaluate exact_ops
       (demo_yaml ''DOC'' (mk_doc ''first_match''
          [mk_rule ''P'' (Some 10) ''age > 100'' [], mk_rule ''A'' (Some 20) ''age > 60'' [],
           mk_rule ''C'' (Some 30) ''age > 1'' []]))
       ''now'' (demo_engine ''DOC'') ''demo'' (VDict [(VStr ''age'', VInt 67)]) False =
       (Inr res, eng') \<and>
     rules_fired res = [VStr ''A''] \<and> rules_skipped res = [VStr ''P''] \<and>
     rules_total res = 3 \<and> rules_fired_count res = 1 \<and> length (execution_log res) = 2 \<and>
     length (rules_fired res) + length (rules_skipped res) < rules_total res"
proof -
  let ?run = "RulesEngine_evaluate exact_ops
       (demo_yaml ''DOC'' (mk_doc ''first_match''
          [mk_rule ''P'' (Some 10) ''age > 100'' [], mk_rule ''A'' (Some 20) ''age > 60'' [],
           mk_rule ''C'' (Some 30) ''age > 1'' []]))
       ''now'' (demo_engine ''DOC'') ''demo'' (VDict [(VStr ''age'', VInt 67)]) False"
  have ev: "map_sum id (\<lambda>r. (rules_fired r, rules_skipped r, rules_total r)) (fst ?run) =
            Inr ([VStr ''A''], [VStr ''P''], 3)"
    by code_simp
  obtain out eng' where run: "?run = (out, eng')" by (cases ?run)
  with ev obtain res where res: "out = Inr res" by (cases out) auto
  from ev run res have f: "rules_fired res = [VStr ''A'']" "rules_skipped res = [VStr ''P'']"
    "rules_total res = 3" by simp_all
  from evaluation_result_invariants[of exact_ops _ "''now''" _ "''demo''" _ False res eng']
    run res
  have "rules_fired_count res = length (rules_fired res) \<and>
        length (execution_log res) = length (rules_fired res) + length (rules_skipped res)"
    by auto
  with f run res show ?thesis by auto
qed

section \<open>Properties of the ruleset store\<close>




















text \<open>
  Fixtures for the write path: an engine that holds \<^verbatim>\<open>rules/demo.yaml\<close> and a cached
  parse of it, and a loader that knows the parse of the text \<^verbatim>\<open>ruleset rules\<close>, which
  YAML reads as one plain scalar, a string.
\<close>

definition cached_engine :: "string \<Rightarrow> pydict \<Rightarrow> engine" where
  "cached_engine doc_text cached =
     \<lparr>rules_dir = ''rules'',
      fs = [''rules/demo.yaml'' \<mapsto> \<lparr>content = doc_text, mtime = Fin 1\<rparr>],
      cache = [''demo'' \<mapsto> cached]\<rparr>"

definition scalar_yaml :: yaml_loader where
  "scalar_yaml = (\<lambda>s. if s = ''ruleset rules'' then Inr (VStr s) else Inl YAMLError)"

text \<open>
  On a text that parses to a mapping, \<^verbatim>\<open>save_ruleset_yaml\<close> does what its docstring
  says: without one of the two keys it raises \<^verbatim>\<open>ValueError\<close> and the engine, files and
  cache, is as before; with both it writes the file and evicts the cache entry.
\<close>

lemma save_ruleset_yaml_mapping:
  assumes "yaml new_text = Inr (VDict d)"
  shows "(dict_find d (VStr ''ruleset'') = None \<or> dict_find d (VStr ''rules'') = None \<longrightarrow>
            save_ruleset_yaml yaml write_time eng name new_text = (Inl ValueError, eng)) \<and>
         (dict_find d (VStr ''ruleset'') \<noteq> None \<longrightarrow> dict_find d (VStr ''rules'') = Some r \<longrightarrow>
          py_len r = Inr n \<longrightarrow>
            save_ruleset_yaml yaml write_time eng name new_text =
              (Inr (ruleset_path eng name, n),
               eng\<lparr>fs := (fs eng)(ruleset_path eng name \<mapsto>
                            \<lparr>content = new_text, mtime = write_time\<rparr>),
                    cache := (cache eng)(name := None)\<rparr>))"
  using assms by (auto simp: save_ruleset_yaml_def Let_def)

text \<open>
  C9 (the code departs from it). The two checks are membership tests on whatever the
  text parses to. The text \<^verbatim>\<open>ruleset rules\<close> parses to a string, in which both key
  names occur as substrings, so the checks pass: the file is overwritten and the cache
  entry evicted before \<^verbatim>\<open>parsed["rules"]\<close> raises \<^verbatim>\<open>TypeError\<close>, and the next load of the
  document fails.
\<close>

theorem save_scalar_document_writes:
  "fst (save_ruleset_yaml scalar_yaml (Fin 2)
          (cached_engine ''OLD'' [(VStr ''rules'', VList [])]) ''demo'' ''ruleset rules'') =
     Inl TypeError \<and>
   fs (snd (save_ruleset_yaml scalar_yaml (Fin 2)
          (cached_engine ''OLD'' [(VStr ''rules'', VList [])]) ''demo'' ''ruleset rules''))
      ''rules/demo.yaml'' = Some \<lparr>content = ''ruleset rules'', mtime = Fin 2\<rparr> \<and>
   cache (snd (save_ruleset_yaml scalar_yaml (Fin 2)
          (cached_engine ''OLD'' [(VStr ''rules'', VList [])]) ''demo'' ''ruleset rules''))
      ''demo'' = None \<and>
   fst (load_ruleset scalar_yaml ''now''
          (snd (save_ruleset_yaml scalar_yaml (Fin 2)
             (cached_engine ''OLD'' [(VStr ''rules'', VList [])]) ''demo'' ''ruleset rules''))
          ''demo'' False) = Inl TypeError"
  by (simp add: save_ruleset_yaml_def scalar_yaml_def Let_def cached_engine_def ruleset_path_def
      startswith_def endswith_def load_ruleset_def cache_lookup_def read_document_def)

end
